theory Spec2Isabelle
  imports Main "HOL-Library.Word"
begin

section \<open>Syscraws: lowering of the syntax tree (ast.cpp)\<close>

text \<open>
  A shallow embedding of \<^verbatim>\<open>ast.cpp\<close>. C++ references to interned types are addresses
  into the type registry, so that the identity comparison of the source
  (\<^verbatim>\<open>&args[i].get() != &expected_args[i].get()\<close>) is a comparison of addresses.
  Exceptions and undefined behaviour are values of the type \<open>error\<close>; the context, which
  the source passes by non-const reference, is passed in and returned.
\<close>

subsection \<open>Operators\<close>

text \<open>
  The enumeration \<^verbatim>\<open>Operator\<close> is declared in \<^verbatim>\<open>ast.hpp\<close>; its enumerators are the
  cases of the switch in \<^verbatim>\<open>OperatorExpr::debug_print\<close>, in the order written there.
\<close>

datatype Operator =
    Plus | Minus | Recip | LogicalNot | BitNot
  | PreInc | PreDec | PostInc | PostDec
  | Add | Sub | Mul | Div | Rem
  | LeftShift | RightShift | ForwardShift | BackwardShift
  | Equal | NotEqual | Less | LessEqual | Greater | GreaterEqual
  | LogicalAnd | LogicalOr | BitAnd | BitOr | BitXor
  | Assign | AddAssign | SubAssign | MulAssign | DivAssign | RemAssign
  | BitAndAssign | BitOrAssign | BitXorAssign
  | LeftShiftAssign | RightShiftAssign | ForwardShiftAssign | BackwardShiftAssign

text \<open>All enumerators, in the order of the switch.\<close>

definition all_operators :: "Operator list" where
  "all_operators =
    [Plus, Minus, Recip, LogicalNot, BitNot,
     PreInc, PreDec, PostInc, PostDec,
     Add, Sub, Mul, Div, Rem,
     LeftShift, RightShift, ForwardShift, BackwardShift,
     Equal, NotEqual, Less, LessEqual, Greater, GreaterEqual,
     LogicalAnd, LogicalOr, BitAnd, BitOr, BitXor,
     Assign, AddAssign, SubAssign, MulAssign, DivAssign, RemAssign,
     BitAndAssign, BitOrAssign, BitXorAssign,
     LeftShiftAssign, RightShiftAssign, ForwardShiftAssign, BackwardShiftAssign]"

text \<open>
  Modelled from the spec: the numbering of \<^verbatim>\<open>Operator\<close> is fixed by \<^verbatim>\<open>ast.hpp\<close>, which is
  missing. An operator "indexes the Operator Table"; an unscoped C++ enumeration numbers
  its enumerators from 0 in the order of declaration, taken here to be the order of the
  switch in \<^verbatim>\<open>OperatorExpr::debug_print\<close>.
\<close>

fun op_index :: "Operator \<Rightarrow> nat" where
  "op_index Plus = 0" | "op_index Minus = 1" | "op_index Recip = 2"
| "op_index LogicalNot = 3" | "op_index BitNot = 4"
| "op_index PreInc = 5" | "op_index PreDec = 6"
| "op_index PostInc = 7" | "op_index PostDec = 8"
| "op_index Add = 9" | "op_index Sub = 10" | "op_index Mul = 11"
| "op_index Div = 12" | "op_index Rem = 13"
| "op_index LeftShift = 14" | "op_index RightShift = 15"
| "op_index ForwardShift = 16" | "op_index BackwardShift = 17"
| "op_index Equal = 18" | "op_index NotEqual = 19"
| "op_index Less = 20" | "op_index LessEqual = 21"
| "op_index Greater = 22" | "op_index GreaterEqual = 23"
| "op_index LogicalAnd = 24" | "op_index LogicalOr = 25"
| "op_index BitAnd = 26" | "op_index BitOr = 27" | "op_index BitXor = 28"
| "op_index Assign = 29" | "op_index AddAssign = 30" | "op_index SubAssign = 31"
| "op_index MulAssign = 32" | "op_index DivAssign = 33" | "op_index RemAssign = 34"
| "op_index BitAndAssign = 35" | "op_index BitOrAssign = 36"
| "op_index BitXorAssign = 37"
| "op_index LeftShiftAssign = 38" | "op_index RightShiftAssign = 39"
| "op_index ForwardShiftAssign = 40" | "op_index BackwardShiftAssign = 41"

text \<open>
  Modelled from the spec: \<^verbatim>\<open>NumOps\<close> is declared in \<^verbatim>\<open>ast.hpp\<close>, which is missing. The
  Operator Table is a "per-operator list" of overloads, so \<^verbatim>\<open>NumOps\<close> is the number of
  operators.
\<close>

definition NumOps :: nat where
  "NumOps = 42"

subsection \<open>The type registry\<close>

text \<open>
  A reference to an interned type is its address in the registry. A function type holds
  references to its parameter types and to its return type.
\<close>

type_synonym tyref = nat

datatype type_Type =
    type_Int
  | type_Bool
  | type_Float
  | type_Func "tyref list" tyref

type_synonym Registry = "type_Type list"

text \<open>The first position of an element in a list, if it has one.\<close>

fun index_of :: "'a \<Rightarrow> 'a list \<Rightarrow> nat option" where
  "index_of x [] = None"
| "index_of x (y # ys) =
     (if x = y then Some 0
      else (case index_of x ys of None \<Rightarrow> None | Some i \<Rightarrow> Some (Suc i)))"

text \<open>
  Modelled from the spec: the registry (\<^verbatim>\<open>ctx.ty\<close>, of a class declared in a header that
  is missing) and its operations \<^verbatim>\<open>get_int\<close>, \<^verbatim>\<open>get_bool\<close>, \<^verbatim>\<open>get_float\<close> and
  \<^verbatim>\<open>get_func\<close>. "Each returns a stable reference to a canonical instance; repeated calls
  with structurally-equal arguments must return the same instance"; it never fails. A
  request returns the address of the instance already stored, and stores a new instance
  at a new address when there is none.
\<close>

definition intern :: "type_Type \<Rightarrow> Registry \<Rightarrow> tyref \<times> Registry" where
  "intern t r =
     (case index_of t r of
        Some a \<Rightarrow> (a, r)
      | None \<Rightarrow> (length r, r @ [t]))"

text \<open>
  Modelled from the spec: \<^verbatim>\<open>get_int()\<close> of the registry, which is missing; it returns the
  canonical instance of the integer type.
\<close>

definition get_int :: "Registry \<Rightarrow> tyref \<times> Registry" where
  "get_int r = intern type_Int r"

text \<open>
  Modelled from the spec: \<^verbatim>\<open>get_bool()\<close> of the registry, which is missing; it returns
  the canonical instance of the boolean type.
\<close>

definition get_bool :: "Registry \<Rightarrow> tyref \<times> Registry" where
  "get_bool r = intern type_Bool r"

text \<open>
  Modelled from the spec: \<^verbatim>\<open>get_float()\<close> of the registry, which is missing; it returns
  the canonical instance of the float type.
\<close>

definition get_float :: "Registry \<Rightarrow> tyref \<times> Registry" where
  "get_float r = intern type_Float r"

text \<open>
  Modelled from the spec: \<^verbatim>\<open>get_func(params, ret)\<close> of the registry, which is missing:
  "two function types with equal param sequences and equal return type are the same
  object".
\<close>

definition get_func :: "tyref list \<Rightarrow> tyref \<Rightarrow> Registry \<Rightarrow> tyref \<times> Registry" where
  "get_func params ret r = intern (type_Func params ret) r"

subsection \<open>Failures\<close>

text \<open>
  \<open>MissingReturn\<close>: control reaches the end of a function that returns a value (the
  bodies of \<^verbatim>\<open>Expr::translate_func\<close>, \<^verbatim>\<open>Identifier::translate\<close>, \<^verbatim>\<open>String::translate\<close>,
  \<^verbatim>\<open>OperatorExpr::translate\<close> and \<^verbatim>\<open>Decl::translate\<close> are empty), which is undefined
  behaviour in C++. \<open>NullPointer\<close>: a member is called through a null pointer.
  \<open>OutOfRange\<close>: a vector is indexed at or beyond its size. \<open>NotAFunc\<close>: a reference of
  static type \<^verbatim>\<open>const type::Func &\<close> does not lead to a function type; the C++ type
  system excludes it, the model of references as addresses does not. \<open>Todo\<close>: the
  statement \<^verbatim>\<open>TODO;\<close>, a macro of \<^verbatim>\<open>error.hpp\<close> that takes no argument.
  \<open>NoMatchingOverload\<close> is the error the specification names; no statement of the source
  constructs it.
\<close>

datatype 'p error =
    MissingReturn
  | NullPointer
  | OutOfRange
  | NotAFunc
  | Todo
  | NoMatchingOverload Operator "tyref list" 'p

text \<open>Checked indexing of a vector.\<close>

definition at :: "'a list \<Rightarrow> nat \<Rightarrow> 'p error + 'a" where
  "at xs i = (if i < length xs then Inr (xs ! i) else Inl OutOfRange)"

text \<open>\<^verbatim>\<open>type::Func::get_args\<close> and \<^verbatim>\<open>type::Func::get_ret\<close>, through a reference.\<close>

definition get_args :: "Registry \<Rightarrow> tyref \<Rightarrow> 'p error + tyref list" where
  "get_args r a =
     (if a < length r then
        (case r ! a of type_Func params ret \<Rightarrow> Inr params | _ \<Rightarrow> Inl NotAFunc)
      else Inl NotAFunc)"

definition get_ret :: "Registry \<Rightarrow> tyref \<Rightarrow> 'p error + tyref" where
  "get_ret r a =
     (if a < length r then
        (case r ! a of type_Func params ret \<Rightarrow> Inr ret | _ \<Rightarrow> Inl NotAFunc)
      else Inl NotAFunc)"

subsection \<open>The intermediate representation\<close>

text \<open>
  The node classes of \<^verbatim>\<open>ir.hpp\<close> that \<^verbatim>\<open>ast.cpp\<close> constructs. An \<^verbatim>\<open>ir::Imm\<close> holds a
  32-bit integer, a double (kept as its 64 bits: no arithmetic is done on it here) or a
  native function.
\<close>

datatype ir_Func = IAdd | FAdd | IEq

datatype ir_Value =
    VInt "32 word"
  | VFloat "64 word"
  | VFunc ir_Func

datatype ir_Expr =
    Imm ir_Value
  | ir_Call ir_Expr "ir_Expr list"

datatype ir_Stmt =
    ir_ExprStmt ir_Expr "ir_Stmt option"

record FuncDef =
  entry :: "ir_Stmt option"
  num_locals :: nat

subsection \<open>The context\<close>

type_synonym overload = "tyref \<times> ir_Func"

record Context =
  ty :: Registry
  ops :: "overload list list"

text \<open>
  \<^verbatim>\<open>ops[op].emplace_back(t, f)\<close>. The constructor uses it on a table of \<^verbatim>\<open>NumOps\<close> lists,
  where the index of every operator is within the table (shown below).
\<close>

definition emplace_back :: "Operator \<Rightarrow> overload \<Rightarrow> overload list list \<Rightarrow> overload list list" where
  "emplace_back op e os = os[op_index op := os ! op_index op @ [e]]"

text \<open>\<^verbatim>\<open>Context::Context\<close>: the registry starts empty, \<^verbatim>\<open>ops\<close> with \<^verbatim>\<open>NumOps\<close> empty lists.\<close>

definition Context_new :: Context where
  "Context_new =
     (let r0 = [];
          ops0 = replicate NumOps [];
          (int_ty, r1) = get_int r0;
          (bool_ty, r2) = get_bool r1;
          (float_ty, r3) = get_float r2;
          (f1, r4) = get_func [int_ty, int_ty] int_ty r3;
          ops1 = emplace_back Add (f1, IAdd) ops0;
          (f2, r5) = get_func [float_ty, float_ty] float_ty r4;
          ops2 = emplace_back Add (f2, FAdd) ops1;
          (f3, r6) = get_func [int_ty, int_ty] bool_ty r5;
          ops3 = emplace_back Equal (f3, IEq) ops2
      in \<lparr> ty = r6, ops = ops3 \<rparr>)"

subsection \<open>The syntax tree\<close>

text \<open>
  \<open>'p\<close> is \<^verbatim>\<open>pos::Range\<close>, the source span, of a header that is missing. An integer literal
  is a \<^verbatim>\<open>std::int32_t\<close>, a float literal a \<^verbatim>\<open>double\<close>. A pointer that the source
  documents or tests as possibly null is an \<open>option\<close>.
\<close>

datatype 'p Expr =
    Identifier 'p string
  | Int_Expr 'p "32 word"
  | Float_Expr 'p "64 word"
  | String_Expr 'p string
  | Call 'p "'p Expr" "'p Expr list"
  | OperatorExpr 'p Operator

datatype 'p Type = TypeName 'p string

datatype 'p Pat = IdPat 'p string

datatype 'p Stmt =
    ExprStmt 'p "'p Expr option"
  | Block 'p "'p Stmt list"
  | If_Stmt 'p "'p Expr" "'p Stmt" "'p Stmt option"
  | While 'p "'p Expr" "'p Stmt"
  | Break 'p
  | Continue 'p
  | Return 'p "'p Expr option"
  | Decl 'p "'p Pat" "'p Type option" "'p Expr option"

subsection \<open>Lowering of expressions\<close>

type_synonym 'p lowered = "'p error + ((tyref \<times> ir_Expr) \<times> Context)"

text \<open>
  The inner loop of \<^verbatim>\<open>OperatorExpr::translate_func\<close>: it runs \<open>i\<close> up to
  \<^verbatim>\<open>expected_num_args\<close> and has no \<^verbatim>\<open>break\<close>.
\<close>

function match_loop ::
  "tyref list \<Rightarrow> tyref list \<Rightarrow> nat \<Rightarrow> nat \<Rightarrow> bool \<Rightarrow> 'p error + bool" where
  "match_loop args expected_args expected_num_args i is_matched =
     (if i < expected_num_args then
        (case at args i of
           Inl e \<Rightarrow> Inl e
         | Inr a \<Rightarrow>
            (case at expected_args i of
               Inl e \<Rightarrow> Inl e
             | Inr b \<Rightarrow>
                match_loop args expected_args expected_num_args (i + 1)
                  (if a \<noteq> b then False else is_matched)))
      else Inr is_matched)"
  by pat_completeness auto
termination
  by (relation "measure (\<lambda>(args, expected_args, n, i, m). n - i)") auto

declare match_loop.simps [simp del]

text \<open>The outer loop, over the overloads of the operator; after it, \<^verbatim>\<open>TODO;\<close>.\<close>

fun scan_overloads ::
  "Context \<Rightarrow> tyref list \<Rightarrow> overload list \<Rightarrow> 'p lowered" where
  "scan_overloads ctx expected_args [] = Inl Todo"
| "scan_overloads ctx expected_args ((t, func) # rest) =
     (case get_args (ty ctx) t of
        Inl e \<Rightarrow> Inl e
      | Inr args \<Rightarrow>
         if length args \<noteq> length expected_args
         then scan_overloads ctx expected_args rest
         else
           (case match_loop args expected_args (length expected_args) 0 True of
              Inl e \<Rightarrow> Inl e
            | Inr is_matched \<Rightarrow>
               if is_matched then Inr ((t, Imm (VFunc func)), ctx)
               else scan_overloads ctx expected_args rest))"

definition OperatorExpr_translate_func ::
  "Context \<Rightarrow> Operator \<Rightarrow> tyref list \<Rightarrow> 'p lowered" where
  "OperatorExpr_translate_func ctx op expected_args =
     (case at (ops ctx) (op_index op) of
        Inl e \<Rightarrow> Inl e
      | Inr overloads \<Rightarrow> scan_overloads ctx expected_args overloads)"

text \<open>
  The virtual \<^verbatim>\<open>translate_func\<close>: only \<^verbatim>\<open>OperatorExpr\<close> overrides the one of \<^verbatim>\<open>Expr\<close>,
  whose body is empty.
\<close>

fun translate_func :: "Context \<Rightarrow> 'p Expr \<Rightarrow> tyref list \<Rightarrow> 'p lowered" where
  "translate_func ctx (OperatorExpr pos op) expected_args =
     OperatorExpr_translate_func ctx op expected_args"
| "translate_func ctx (Identifier pos name) expected_args = Inl MissingReturn"
| "translate_func ctx (Int_Expr pos v) expected_args = Inl MissingReturn"
| "translate_func ctx (Float_Expr pos v) expected_args = Inl MissingReturn"
| "translate_func ctx (String_Expr pos v) expected_args = Inl MissingReturn"
| "translate_func ctx (Call pos f args) expected_args = Inl MissingReturn"

text \<open>
  The virtual \<^verbatim>\<open>translate\<close>. \<open>translate_args\<close> is the loop of \<^verbatim>\<open>Call::translate\<close>, with
  the two vectors it fills by \<^verbatim>\<open>push_back\<close>.
\<close>

fun translate :: "Context \<Rightarrow> 'p Expr \<Rightarrow> 'p lowered"
and translate_args ::
  "Context \<Rightarrow> 'p Expr list \<Rightarrow> tyref list \<Rightarrow> ir_Expr list
     \<Rightarrow> 'p error + ((tyref list \<times> ir_Expr list) \<times> Context)" where
  "translate ctx (Identifier pos name) = Inl MissingReturn"
| "translate ctx (Int_Expr pos v) =
     (let (t, r) = get_int (ty ctx) in Inr ((t, Imm (VInt v)), ctx\<lparr>ty := r\<rparr>))"
| "translate ctx (Float_Expr pos v) =
     (let (t, r) = get_float (ty ctx) in Inr ((t, Imm (VFloat v)), ctx\<lparr>ty := r\<rparr>))"
| "translate ctx (String_Expr pos v) = Inl MissingReturn"
| "translate ctx (Call pos f args) =
     (case translate_args ctx args [] [] of
        Inl e \<Rightarrow> Inl e
      | Inr ((args_type, args_expr), ctx1) \<Rightarrow>
         (case translate_func ctx1 f args_type of
            Inl e \<Rightarrow> Inl e
          | Inr ((func_type, func_expr), ctx2) \<Rightarrow>
             (case get_ret (ty ctx2) func_type of
                Inl e \<Rightarrow> Inl e
              | Inr ret \<Rightarrow> Inr ((ret, ir_Call func_expr args_expr), ctx2))))"
| "translate ctx (OperatorExpr pos op) = Inl MissingReturn"
| "translate_args ctx [] args_type args_expr = Inr ((args_type, args_expr), ctx)"
| "translate_args ctx (arg # rest) args_type args_expr =
     (case translate ctx arg of
        Inl e \<Rightarrow> Inl e
      | Inr ((t, expr), ctx1) \<Rightarrow>
         translate_args ctx1 rest (args_type @ [t]) (args_expr @ [expr]))"

text \<open>
  Lowering the arguments of a call one after the other, left to right, each in the
  context the previous one left, stopping at the first failure. This is the reading of
  the specification ("first lower every argument expression, left to right, in the order
  written, collecting their types and IR nodes"), to be compared with the loop
  \<open>translate_args\<close> of the source.
\<close>

fun lower_in_order ::
  "Context \<Rightarrow> 'p Expr list \<Rightarrow> 'p error + ((tyref \<times> ir_Expr) list \<times> Context)" where
  "lower_in_order ctx [] = Inr ([], ctx)"
| "lower_in_order ctx (arg # rest) =
     (case translate ctx arg of
        Inl e \<Rightarrow> Inl e
      | Inr (p, ctx1) \<Rightarrow>
         (case lower_in_order ctx1 rest of
            Inl e \<Rightarrow> Inl e
          | Inr (ps, ctx2) \<Rightarrow> Inr (p # ps, ctx2)))"

text \<open>
  The resolution rule in the words of the specification: an overload matches when its
  "parameter-type sequence has equal length and [...] every parameter type is identical
  (by identity) to the corresponding argument type"; "the first entry" that matches "is
  selected".
\<close>

definition is_func :: "Registry \<Rightarrow> tyref \<Rightarrow> bool" where
  "is_func r a = (a < length r \<and> (case r ! a of type_Func params ret \<Rightarrow> True | _ \<Rightarrow> False))"

definition params_of :: "Registry \<Rightarrow> tyref \<Rightarrow> tyref list" where
  "params_of r a = (case r ! a of type_Func params ret \<Rightarrow> params | _ \<Rightarrow> [])"

definition matches_exactly :: "Registry \<Rightarrow> tyref list \<Rightarrow> overload \<Rightarrow> bool" where
  "matches_exactly r arg_types e =
     (length (params_of r (fst e)) = length arg_types \<and>
      list_all (\<lambda>i. params_of r (fst e) ! i = arg_types ! i) [0..<length arg_types])"

definition first_match :: "Context \<Rightarrow> Operator \<Rightarrow> tyref list \<Rightarrow> overload option" where
  "first_match ctx op arg_types =
     find (matches_exactly (ty ctx) arg_types) (ops ctx ! op_index op)"

text \<open>
  The failure the specification gives for a miss:
  "If no entry matches, lowering fails with NoMatchingOverload(operator, arg types, span)".
\<close>

definition resolve_callable_spec ::
  "Context \<Rightarrow> 'p \<Rightarrow> Operator \<Rightarrow> tyref list \<Rightarrow> 'p lowered" where
  "resolve_callable_spec ctx pos op arg_types =
     (case first_match ctx op arg_types of
        Some (t, func) \<Rightarrow> Inr ((t, Imm (VFunc func)), ctx)
      | None \<Rightarrow> Inl (NoMatchingOverload op arg_types pos))"

text \<open>The overloads of a context all refer to function types, as their C++ type says.\<close>

definition overloads_typed :: "Context \<Rightarrow> bool" where
  "overloads_typed ctx =
     (\<forall>os \<in> set (ops ctx). \<forall>e \<in> set os. is_func (ty ctx) (fst e))"

subsection \<open>Lowering of statements\<close>

type_synonym 'p lowered_stmt = "'p error + ((ir_Stmt option \<times> nat) \<times> Context)"

text \<open>
  \<^verbatim>\<open>ExprStmt::translate\<close> calls \<^verbatim>\<open>expr->translate(ctx)\<close> whatever \<^verbatim>\<open>expr\<close> is; the
  constructor's comment allows \<^verbatim>\<open>expr\<close> to be \<^verbatim>\<open>nullptr\<close>. The third parameter, the
  counter of local slots, is left as it is.
\<close>

definition ExprStmt_translate ::
  "Context \<Rightarrow> 'p Expr option \<Rightarrow> ir_Stmt option \<Rightarrow> nat \<Rightarrow> 'p lowered_stmt" where
  "ExprStmt_translate ctx expr end_stmt n =
     (case expr of
        None \<Rightarrow> Inl NullPointer
      | Some e \<Rightarrow>
         (case translate ctx e of
            Inl err \<Rightarrow> Inl err
          | Inr ((t, x), ctx1) \<Rightarrow> Inr ((Some (ir_ExprStmt x end_stmt), n), ctx1)))"

text \<open>\<^verbatim>\<open>Decl::translate\<close> has an empty body.\<close>

definition Decl_translate ::
  "Context \<Rightarrow> ir_Stmt option \<Rightarrow> nat \<Rightarrow> 'p lowered_stmt" where
  "Decl_translate ctx end_stmt n = Inl MissingReturn"

text \<open>
  The virtual \<^verbatim>\<open>Stmt::translate\<close>. The file defines it for \<^verbatim>\<open>ExprStmt\<close> and \<^verbatim>\<open>Decl\<close>
  only; the lowering of the other statements is the parameter \<open>others\<close>.
\<close>

fun Stmt_translate ::
  "('p Stmt \<Rightarrow> Context \<Rightarrow> ir_Stmt option \<Rightarrow> nat \<Rightarrow> 'p lowered_stmt)
     \<Rightarrow> Context \<Rightarrow> 'p Stmt \<Rightarrow> ir_Stmt option \<Rightarrow> nat \<Rightarrow> 'p lowered_stmt" where
  "Stmt_translate others ctx (ExprStmt pos expr) end_stmt n =
     ExprStmt_translate ctx expr end_stmt n"
| "Stmt_translate others ctx (Decl pos left t right) end_stmt n =
     Decl_translate ctx end_stmt n"
| "Stmt_translate others ctx s end_stmt n = others s ctx end_stmt n"

text \<open>
  \<^verbatim>\<open>ir::FuncDef::invoke\<close>, of \<^verbatim>\<open>ir.hpp\<close>, is missing. The specification: "An
  invocation: allocate a frame sized to the function's local count, bind argument values
  into the first slots, set the active node to the function's entry node", then run the
  graph from there. A slot that no argument fills holds nothing (\<open>None\<close>). The walk over
  the graph, which the specification leaves to the execution engine, is the parameter
  \<open>exec\<close>; it receives the environment, the frame and the entry node.
\<close>

type_synonym frame = "ir_Value option list"

text \<open>
  Modelled from the spec: the frame of an invocation, which \<^verbatim>\<open>ir::FuncDef::invoke\<close>
  (missing) allocates: "sized to the function's local count", with the "argument values
  [bound] into the first slots".
\<close>

definition new_frame :: "FuncDef \<Rightarrow> ir_Value list \<Rightarrow> frame" where
  "new_frame fd args =
     take (num_locals fd) (map Some args @ replicate (num_locals fd) None)"

text \<open>
  Modelled from the spec: \<^verbatim>\<open>ir::FuncDef::invoke\<close>, which is missing: a new frame, then
  the run of the graph from "the function's entry node".
\<close>

definition invoke ::
  "('env \<Rightarrow> frame \<Rightarrow> ir_Stmt option \<Rightarrow> 'res) \<Rightarrow> FuncDef \<Rightarrow> 'env \<Rightarrow> ir_Value list \<Rightarrow> 'res" where
  "invoke exec fd env args = exec env (new_frame fd args) (entry fd)"

text \<open>
  \<^verbatim>\<open>Stmt::run\<close>. \<^verbatim>\<open>std::make_shared<ir::FuncDef>()\<close> value-initialises the definition: no
  entry, no local. \<^verbatim>\<open>ir::print\<close>, of \<^verbatim>\<open>ir.hpp\<close>, is the parameter \<open>print\<close>; what it
  writes is returned along with the context.
\<close>

definition run ::
  "('p Stmt \<Rightarrow> Context \<Rightarrow> ir_Stmt option \<Rightarrow> nat \<Rightarrow> 'p lowered_stmt)
     \<Rightarrow> ('env \<Rightarrow> frame \<Rightarrow> ir_Stmt option \<Rightarrow> 'res) \<Rightarrow> ('res \<Rightarrow> 'out)
     \<Rightarrow> 'p Stmt \<Rightarrow> Context \<Rightarrow> 'env \<Rightarrow> 'p error + ('out \<times> Context)" where
  "run others exec print stmt ctx env =
     (let tmp = \<lparr> entry = None, num_locals = 0 \<rparr> in
      case Stmt_translate others ctx stmt None (num_locals tmp) of
        Inl e \<Rightarrow> Inl e
      | Inr ((node, n), ctx1) \<Rightarrow>
         (let tmp1 = tmp\<lparr> entry := node, num_locals := n \<rparr>
          in Inr (print (invoke exec tmp1 env []), ctx1)))"

subsection \<open>The debug dump\<close>

text \<open>
  The part of the file under \<^verbatim>\<open>#ifdef DEBUG\<close>. What is written to \<^verbatim>\<open>std::cout\<close> is the
  list of the lines written, one for each \<^verbatim>\<open>std::endl\<close>. The output operators of
  \<^verbatim>\<open>pos::Range\<close> (of a header that is missing) and of \<^verbatim>\<open>double\<close> are the parameters
  \<open>P\<close> and \<open>D\<close>; integers are written in decimal.
\<close>

text \<open>The class \<^verbatim>\<open>indent\<close>: two spaces, \<^verbatim>\<open>depth\<close> times; nothing when \<^verbatim>\<open>depth\<close> is negative.\<close>

definition indent :: "int \<Rightarrow> string" where
  "indent depth = concat (replicate (nat depth) ''  '')"

definition digit :: "nat \<Rightarrow> char" where
  "digit d = char_of (48 + d)"

fun dec :: "nat \<Rightarrow> string" where
  "dec n = (if n < 10 then [digit n] else dec (n div 10) @ [digit (n mod 10)])"

declare dec.simps [simp del]

definition dec_int32 :: "32 word \<Rightarrow> string" where
  "dec_int32 v = (if sint v < 0 then ''-'' @ dec (nat (- sint v)) else dec (nat (sint v)))"

text \<open>The switch of \<^verbatim>\<open>OperatorExpr::debug_print\<close>.\<close>

fun op_name :: "Operator \<Rightarrow> string" where
  "op_name Plus = ''plus''"
| "op_name Minus = ''minus''"
| "op_name Recip = ''reciprocal''"
| "op_name LogicalNot = ''logical not''"
| "op_name BitNot = ''bitwise not''"
| "op_name PreInc = ''prefix increment''"
| "op_name PreDec = ''prefix decrement''"
| "op_name PostInc = ''postfix increment''"
| "op_name PostDec = ''postfix decrement''"
| "op_name Add = ''add''"
| "op_name Sub = ''sub''"
| "op_name Mul = ''mul''"
| "op_name Div = ''div''"
| "op_name Rem = ''rem''"
| "op_name LeftShift = ''left shift''"
| "op_name RightShift = ''right shift''"
| "op_name ForwardShift = ''forward shift''"
| "op_name BackwardShift = ''backward shift''"
| "op_name Equal = ''equal to''"
| "op_name NotEqual = ''not equal to''"
| "op_name Less = ''less than''"
| "op_name LessEqual = ''less than or equal to''"
| "op_name Greater = ''greater than''"
| "op_name GreaterEqual = ''greater than or equal to''"
| "op_name LogicalAnd = ''logical and''"
| "op_name LogicalOr = ''logical or''"
| "op_name BitAnd = ''bitwise and''"
| "op_name BitOr = ''bitwise or''"
| "op_name BitXor = ''bitwise xor''"
| "op_name Assign = ''assign''"
| "op_name AddAssign = ''add assign''"
| "op_name SubAssign = ''sub assign''"
| "op_name MulAssign = ''mul assign''"
| "op_name DivAssign = ''div assign''"
| "op_name RemAssign = ''rem assign''"
| "op_name BitAndAssign = ''bitwise and assign''"
| "op_name BitOrAssign = ''bitwise or assign''"
| "op_name BitXorAssign = ''bitwise xor assign''"
| "op_name LeftShiftAssign = ''left shift assign''"
| "op_name RightShiftAssign = ''right shift assign''"
| "op_name ForwardShiftAssign = ''forward shift assign''"
| "op_name BackwardShiftAssign = ''backward shift assign''"

fun Expr_debug_print ::
  "('p \<Rightarrow> string) \<Rightarrow> (64 word \<Rightarrow> string) \<Rightarrow> int \<Rightarrow> 'p Expr \<Rightarrow> string list" where
  "Expr_debug_print P D depth (Identifier pos name) =
     [indent depth @ P pos @ '' identifier('' @ name @ '')'']"
| "Expr_debug_print P D depth (Int_Expr pos v) =
     [indent depth @ P pos @ '' integer('' @ dec_int32 v @ '')'']"
| "Expr_debug_print P D depth (Float_Expr pos v) =
     [indent depth @ P pos @ '' float('' @ D v @ '')'']"
| "Expr_debug_print P D depth (String_Expr pos v) =
     [indent depth @ P pos @ '' string('' @ v @ '')'']"
| "Expr_debug_print P D depth (Call pos func args) =
     [indent depth @ P pos @ '' call'']
     @ Expr_debug_print P D (depth + 1) func
     @ [indent depth @ ''args('' @ dec (length args) @ ''):'']
     @ concat (map (Expr_debug_print P D (depth + 1)) args)"
| "Expr_debug_print P D depth (OperatorExpr pos op) =
     [indent depth @ P pos @ '' operator('' @ op_name op @ '')'']"

fun Type_debug_print :: "('p \<Rightarrow> string) \<Rightarrow> int \<Rightarrow> 'p Type \<Rightarrow> string list" where
  "Type_debug_print P depth (TypeName pos name) =
     [indent depth @ P pos @ '' type name('' @ name @ '')'']"

fun Pat_debug_print :: "('p \<Rightarrow> string) \<Rightarrow> int \<Rightarrow> 'p Pat \<Rightarrow> string list" where
  "Pat_debug_print P depth (IdPat pos name) =
     [indent depth @ P pos @ '' identifier pattern('' @ name @ '')'']"

fun Stmt_debug_print ::
  "('p \<Rightarrow> string) \<Rightarrow> (64 word \<Rightarrow> string) \<Rightarrow> int \<Rightarrow> 'p Stmt \<Rightarrow> string list" where
  "Stmt_debug_print P D depth (ExprStmt pos expr) =
     (case expr of
        Some e \<Rightarrow>
          [indent depth @ P pos @ '' expression statement'']
          @ Expr_debug_print P D (depth + 1) e
      | None \<Rightarrow> [indent depth @ P pos @ '' expression statement (empty)''])"
| "Stmt_debug_print P D depth (While pos cond stmt) =
     [indent depth @ P pos @ '' while'']
     @ Expr_debug_print P D (depth + 1) cond
     @ [indent depth @ ''do'']
     @ Stmt_debug_print P D (depth + 1) stmt
     @ [indent depth @ ''end while'']"
| "Stmt_debug_print P D depth (If_Stmt pos cond stmt_true stmt_false) =
     [indent depth @ P pos @ '' if'']
     @ Expr_debug_print P D (depth + 1) cond
     @ [indent depth @ ''then'']
     @ Stmt_debug_print P D (depth + 1) stmt_true
     @ (case stmt_false of
          Some s \<Rightarrow> [indent depth @ ''else''] @ Stmt_debug_print P D (depth + 1) s
        | None \<Rightarrow> [])
     @ [indent depth @ ''end if'']"
| "Stmt_debug_print P D depth (Block pos stmts) =
     [indent depth @ P pos @ '' block'']
     @ concat (map (Stmt_debug_print P D (depth + 1)) stmts)
     @ [indent depth @ ''end block'']"
| "Stmt_debug_print P D depth (Break pos) = [indent depth @ P pos @ '' break'']"
| "Stmt_debug_print P D depth (Continue pos) = [indent depth @ P pos @ '' continue'']"
| "Stmt_debug_print P D depth (Return pos expr) =
     [indent depth @ P pos @ '' return'']
     @ (case expr of Some e \<Rightarrow> Expr_debug_print P D (depth + 1) e | None \<Rightarrow> [])"
| "Stmt_debug_print P D depth (Decl pos left t right) =
     [indent depth @ P pos @ '' decl'']
     @ Pat_debug_print P (depth + 1) left
     @ (case t of Some t' \<Rightarrow> Type_debug_print P (depth + 1) t' | None \<Rightarrow> [])
     @ (case right of Some e \<Rightarrow> Expr_debug_print P D (depth + 1) e | None \<Rightarrow> [])"

text \<open>
  The requests a client can make of the registry, and a sequence of requests served one
  after the other; \<open>serve_all\<close> gives the references returned, in order.
\<close>

datatype request =
    Get_int
  | Get_bool
  | Get_float
  | Get_func "tyref list" tyref

fun serve :: "request \<Rightarrow> Registry \<Rightarrow> tyref \<times> Registry" where
  "serve Get_int r = get_int r"
| "serve Get_bool r = get_bool r"
| "serve Get_float r = get_float r"
| "serve (Get_func params ret) r = get_func params ret r"

fun serve_all :: "Registry \<Rightarrow> request list \<Rightarrow> tyref list" where
  "serve_all r [] = []"
| "serve_all r (q # qs) = (let (a, r1) = serve q r in a # serve_all r1 qs)"

text \<open>The registry that serving the requests leaves.\<close>

fun registry_after :: "Registry \<Rightarrow> request list \<Rightarrow> Registry" where
  "registry_after r [] = r"
| "registry_after r (q # qs) = registry_after (snd (serve q r)) qs"

text \<open>The structure a request asks for.\<close>

fun structure_of :: "request \<Rightarrow> type_Type" where
  "structure_of Get_int = type_Int"
| "structure_of Get_bool = type_Bool"
| "structure_of Get_float = type_Float"
| "structure_of (Get_func params ret) = type_Func params ret"

section \<open>Properties\<close>

subsection \<open>The fresh context\<close>

lemma Context_new_ty:
  "ty Context_new =
     [type_Int, type_Bool, type_Float,
      type_Func [0, 0] 0, type_Func [2, 2] 2, type_Func [0, 0] 1]"
  by code_simp

lemma Context_new_ops:
  "ops Context_new = (replicate 42 [])[9 := [(3, IAdd), (4, FAdd)], 18 := [(5, IEq)]]"
  by code_simp

lemma Context_new_prims:
  "get_int (ty Context_new) = (0, ty Context_new)"
  "get_bool (ty Context_new) = (1, ty Context_new)"
  "get_float (ty Context_new) = (2, ty Context_new)"
  by code_simp+

lemma op_index_less: "op_index op < 42"
  by (cases op) simp_all

lemma Context_new_length: "length (ops Context_new) = 42"
  by (simp add: Context_new_ops)

lemma Context_new_in_range: "op_index op < length (ops Context_new)"
  by (simp add: Context_new_length op_index_less)

lemma Context_new_typed: "overloads_typed Context_new"
  by code_simp

lemma Context_new_other:
  "op \<noteq> Add \<Longrightarrow> op \<noteq> Equal \<Longrightarrow> ops Context_new ! op_index op = []"
  by (cases op) (simp_all add: Context_new_ops)

lemma Context_new_int_int: "first_match Context_new Add [0, 0] = Some (3, IAdd)"
  by code_simp

lemma Context_new_float_float: "first_match Context_new Add [2, 2] = Some (4, FAdd)"
  by code_simp

lemma Context_new_int_float: "first_match Context_new Add [0, 2] = None"
  by code_simp

subsection \<open>The two loops of \<^verbatim>\<open>OperatorExpr::translate_func\<close>\<close>

text \<open>
  When both vectors have \<open>n\<close> elements the inner loop reads within bounds, and what it
  leaves in \<^verbatim>\<open>is_matched\<close> says whether the two agree from \<open>i\<close> on.
\<close>

lemma match_loop_in_range:
  "length args = n \<Longrightarrow> length expected_args = n \<Longrightarrow>
   (match_loop args expected_args n i m :: 'p error + bool) =
     Inr (m \<and> drop i args = drop i expected_args)"
proof (induction "n - i" arbitrary: i m)
  case 0
  then show ?case
    by (subst match_loop.simps) simp
next
  case (Suc k)
  then have lt: "i < n" by simp
  have d1: "drop i args = args ! i # drop (Suc i) args"
    using lt Suc.prems by (simp add: Cons_nth_drop_Suc)
  have d2: "drop i expected_args = expected_args ! i # drop (Suc i) expected_args"
    using lt Suc.prems by (simp add: Cons_nth_drop_Suc)
  have "(match_loop args expected_args n i m :: 'p error + bool) =
        match_loop args expected_args n (i + 1)
          (if args ! i \<noteq> expected_args ! i then False else m)"
    using lt Suc.prems by (subst match_loop.simps) (simp add: at_def)
  also have "\<dots> = Inr ((if args ! i \<noteq> expected_args ! i then False else m)
                     \<and> drop (i + 1) args = drop (i + 1) expected_args)"
    using Suc.hyps(2) Suc.prems by (intro Suc.hyps(1)) simp_all
  finally show ?case
    by (auto simp: d1 d2)
qed

lemma matches_exactly_eq:
  "matches_exactly r arg_types e \<longleftrightarrow> params_of r (fst e) = arg_types"
proof -
  have "params_of r (fst e) = arg_types \<longleftrightarrow>
        length (params_of r (fst e)) = length arg_types \<and>
        (\<forall>i < length arg_types. params_of r (fst e) ! i = arg_types ! i)"
    by (metis nth_equalityI)
  moreover have "(\<forall>i \<in> set [0..<length arg_types]. params_of r (fst e) ! i = arg_types ! i)
      \<longleftrightarrow> (\<forall>i < length arg_types. params_of r (fst e) ! i = arg_types ! i)"
    by auto
  ultimately show ?thesis
    unfolding matches_exactly_def list_all_iff by blast
qed

lemma matches_exactly_iff:
  "matches_exactly r arg_types = (\<lambda>e. params_of r (fst e) = arg_types)"
  by (rule ext) (rule matches_exactly_eq)

lemma get_args_is_func:
  "is_func r a \<Longrightarrow> (get_args r a :: 'p error + tyref list) = Inr (params_of r a)"
  by (auto simp: is_func_def get_args_def params_of_def split: type_Type.splits)

lemma scan_overloads_find:
  "\<forall>e \<in> set os. is_func (ty ctx) (fst e) \<Longrightarrow>
   (scan_overloads ctx arg_types os :: 'p lowered) =
     (case find (matches_exactly (ty ctx) arg_types) os of
        Some (t, func) \<Rightarrow> Inr ((t, Imm (VFunc func)), ctx)
      | None \<Rightarrow> Inl Todo)"
proof (induction os)
  case Nil
  then show ?case by simp
next
  case (Cons e os)
  obtain t func where e: "e = (t, func)" by (cases e)
  have f: "is_func (ty ctx) t" using Cons.prems e by simp
  have ih: "(scan_overloads ctx arg_types os :: 'p lowered) =
     (case find (matches_exactly (ty ctx) arg_types) os of
        Some (t, func) \<Rightarrow> Inr ((t, Imm (VFunc func)), ctx)
      | None \<Rightarrow> Inl Todo)"
    using Cons by simp
  show ?case
  proof (cases "length (params_of (ty ctx) t) = length arg_types")
    case True
    then show ?thesis
      using f ih
      by (simp add: e get_args_is_func match_loop_in_range matches_exactly_iff)
  next
    case False
    then have "params_of (ty ctx) t \<noteq> arg_types" by auto
    then show ?thesis
      using False f ih
      by (simp add: e get_args_is_func matches_exactly_iff)
  qed
qed

lemma translate_func_first_match:
  assumes "op_index op < length (ops ctx)" and "overloads_typed ctx"
  shows "(translate_func ctx (OperatorExpr pos op) arg_types :: 'p lowered) =
     (case first_match ctx op arg_types of
        Some (t, func) \<Rightarrow> Inr ((t, Imm (VFunc func)), ctx)
      | None \<Rightarrow> Inl Todo)"
proof -
  have "ops ctx ! op_index op \<in> set (ops ctx)"
    using assms(1) by simp
  then have "\<forall>e \<in> set (ops ctx ! op_index op). is_func (ty ctx) (fst e)"
    using assms(2) by (simp add: overloads_typed_def)
  then show ?thesis
    using assms(1)
    by (simp add: OperatorExpr_translate_func_def at_def first_match_def scan_overloads_find)
qed

lemma first_match_None_iff:
  "first_match ctx op arg_types = None \<longleftrightarrow>
     (\<forall>e \<in> set (ops ctx ! op_index op). \<not> matches_exactly (ty ctx) arg_types e)"
  by (auto simp: first_match_def find_None_iff)

lemma first_match_Some_iff:
  "first_match ctx op arg_types = Some e \<longleftrightarrow>
     (\<exists>k < length (ops ctx ! op_index op).
        ops ctx ! op_index op ! k = e \<and> matches_exactly (ty ctx) arg_types e \<and>
        (\<forall>j < k. \<not> matches_exactly (ty ctx) arg_types (ops ctx ! op_index op ! j)))"
  by (auto simp: first_match_def find_Some_iff)

lemma scan_overloads_in_range:
  "(scan_overloads ctx arg_types os :: 'p lowered) \<noteq> Inl OutOfRange"
proof (induction os)
  case Nil
  then show ?case by simp
next
  case (Cons e os)
  obtain t func where e: "e = (t, func)" by (cases e)
  show ?case
  proof (cases "get_args (ty ctx) t :: 'p error + tyref list")
    case (Inl err)
    then have "err = NotAFunc"
      by (auto simp: get_args_def split: if_splits type_Type.splits)
    then show ?thesis using Inl by (simp add: e)
  next
    case (Inr args)
    then show ?thesis
      using Cons.IH by (simp add: e match_loop_in_range)
  qed
qed

subsection \<open>Resolution of an operator as a callable\<close>

text \<open>
  C2. In a context whose table has a list for the operator and whose overloads refer
  to function types, \<^verbatim>\<open>OperatorExpr::translate_func\<close> succeeds exactly when some overload of
  the operator matches the argument types exactly (same length, every parameter type the
  same interned instance as the argument type), and what it returns is the first such
  overload in registration order, as an immediate holding its implementation, the context
  unchanged. In the fresh context, \<open>Add\<close> at (int, int) gives the integer addition, of
  return type int, and at (float, float) the float addition, of return type float.
\<close>

theorem translate_func_selects_first_exact_match:
  "(op_index op < length (ops ctx) \<and> overloads_typed ctx \<longrightarrow>
      ((translate_func ctx (OperatorExpr pos op) arg_types :: 'p lowered) = Inr res
        \<longleftrightarrow> (\<exists>k < length (ops ctx ! op_index op).
               matches_exactly (ty ctx) arg_types (ops ctx ! op_index op ! k)
             \<and> (\<forall>j < k. \<not> matches_exactly (ty ctx) arg_types (ops ctx ! op_index op ! j))
             \<and> res = ((fst (ops ctx ! op_index op ! k),
                       Imm (VFunc (snd (ops ctx ! op_index op ! k)))), ctx))))
   \<and> (\<exists>t. (translate_func Context_new (OperatorExpr pos Add)
              [fst (get_int (ty Context_new)), fst (get_int (ty Context_new))] :: 'p lowered)
            = Inr ((t, Imm (VFunc IAdd)), Context_new)
          \<and> (get_ret (ty Context_new) t :: 'p error + tyref)
              = Inr (fst (get_int (ty Context_new))))
   \<and> (\<exists>t. (translate_func Context_new (OperatorExpr pos Add)
              [fst (get_float (ty Context_new)), fst (get_float (ty Context_new))] :: 'p lowered)
            = Inr ((t, Imm (VFunc FAdd)), Context_new)
          \<and> (get_ret (ty Context_new) t :: 'p error + tyref)
              = Inr (fst (get_float (ty Context_new))))"
proof (intro conjI impI)
  assume h: "op_index op < length (ops ctx) \<and> overloads_typed ctx"
  let ?os = "ops ctx ! op_index op"
  have eq: "(translate_func ctx (OperatorExpr pos op) arg_types :: 'p lowered) =
     (case first_match ctx op arg_types of
        Some (t, func) \<Rightarrow> Inr ((t, Imm (VFunc func)), ctx)
      | None \<Rightarrow> Inl Todo)"
    using h by (intro translate_func_first_match) auto
  show "((translate_func ctx (OperatorExpr pos op) arg_types :: 'p lowered) = Inr res)
        \<longleftrightarrow> (\<exists>k < length ?os.
               matches_exactly (ty ctx) arg_types (?os ! k)
             \<and> (\<forall>j < k. \<not> matches_exactly (ty ctx) arg_types (?os ! j))
             \<and> res = ((fst (?os ! k), Imm (VFunc (snd (?os ! k)))), ctx))"
    (is "?L \<longleftrightarrow> ?R")
  proof
    assume ?L
    then obtain t func where f: "first_match ctx op arg_types = Some (t, func)"
      and r: "res = ((t, Imm (VFunc func)), ctx)"
      unfolding eq by (cases "first_match ctx op arg_types") auto
    from f obtain k where "k < length ?os" "?os ! k = (t, func)"
      "matches_exactly (ty ctx) arg_types (t, func)"
      "\<forall>j < k. \<not> matches_exactly (ty ctx) arg_types (?os ! j)"
      unfolding first_match_Some_iff by blast
    then show ?R using r by (intro exI [of _ k]) simp
  next
    assume ?R
    then obtain k where k: "k < length ?os"
      "matches_exactly (ty ctx) arg_types (?os ! k)"
      "\<forall>j < k. \<not> matches_exactly (ty ctx) arg_types (?os ! j)"
      and r: "res = ((fst (?os ! k), Imm (VFunc (snd (?os ! k)))), ctx)"
      by blast
    have "first_match ctx op arg_types = Some (?os ! k)"
      unfolding first_match_Some_iff using k by blast
    then show ?L
      unfolding eq using r by (simp add: case_prod_beta)
  qed
next
  have "(translate_func Context_new (OperatorExpr pos Add) [0, 0] :: 'p lowered)
          = Inr ((3, Imm (VFunc IAdd)), Context_new)"
    unfolding translate_func_first_match [OF Context_new_in_range Context_new_typed]
    by (simp add: Context_new_int_int)
  moreover have "(get_ret (ty Context_new) 3 :: 'p error + tyref) = Inr 0"
    by (simp add: get_ret_def Context_new_ty)
  ultimately show "\<exists>t. (translate_func Context_new (OperatorExpr pos Add)
              [fst (get_int (ty Context_new)), fst (get_int (ty Context_new))] :: 'p lowered)
            = Inr ((t, Imm (VFunc IAdd)), Context_new)
          \<and> (get_ret (ty Context_new) t :: 'p error + tyref)
              = Inr (fst (get_int (ty Context_new)))"
    by (simp add: Context_new_prims del: translate_func.simps)
next
  have "(translate_func Context_new (OperatorExpr pos Add) [2, 2] :: 'p lowered)
          = Inr ((4, Imm (VFunc FAdd)), Context_new)"
    unfolding translate_func_first_match [OF Context_new_in_range Context_new_typed]
    by (simp add: Context_new_float_float)
  moreover have "(get_ret (ty Context_new) 4 :: 'p error + tyref) = Inr 2"
    by (simp add: get_ret_def Context_new_ty)
  ultimately show "\<exists>t. (translate_func Context_new (OperatorExpr pos Add)
              [fst (get_float (ty Context_new)), fst (get_float (ty Context_new))] :: 'p lowered)
            = Inr ((t, Imm (VFunc FAdd)), Context_new)
          \<and> (get_ret (ty Context_new) t :: 'p error + tyref)
              = Inr (fst (get_float (ty Context_new)))"
    by (simp add: Context_new_prims del: translate_func.simps)
qed

theorem translate_func_selects_first_exact_match_witness:
  "op_index Add < length (ops Context_new) \<and> overloads_typed Context_new
   \<and> (1::nat) < length (ops Context_new ! op_index Add)
   \<and> matches_exactly (ty Context_new) [2, 2] (ops Context_new ! op_index Add ! 1)
   \<and> \<not> matches_exactly (ty Context_new) [2, 2] (ops Context_new ! op_index Add ! 0)
   \<and> translate_func Context_new (OperatorExpr () Add) [2, 2]
        = Inr ((4, Imm (VFunc FAdd)), Context_new)"
proof -
  have h: "op_index Add < length (ops Context_new) \<and> overloads_typed Context_new"
    by (simp add: Context_new_length Context_new_typed)
  have os: "ops Context_new ! op_index Add = [(3, IAdd), (4, FAdd)]"
    by (simp add: Context_new_ops)
  have m1: "matches_exactly (ty Context_new) [2, 2] (4, FAdd)"
    by code_simp
  have m0: "\<not> matches_exactly (ty Context_new) [2, 2] (3, IAdd)"
    by code_simp
  have "\<exists>k < length (ops Context_new ! op_index Add).
          matches_exactly (ty Context_new) [2, 2] (ops Context_new ! op_index Add ! k)
        \<and> (\<forall>j < k. \<not> matches_exactly (ty Context_new) [2, 2]
                        (ops Context_new ! op_index Add ! j))
        \<and> ((4, Imm (VFunc FAdd)), Context_new)
            = ((fst (ops Context_new ! op_index Add ! k),
                Imm (VFunc (snd (ops Context_new ! op_index Add ! k)))), Context_new)"
    unfolding os using m0 m1 by (intro exI [of _ 1]) simp
  with h translate_func_selects_first_exact_match
         [of Add Context_new "()" "[2, 2]" "((4, Imm (VFunc FAdd)), Context_new)"]
  have "translate_func Context_new (OperatorExpr () Add) [2, 2]
        = Inr ((4, Imm (VFunc FAdd)), Context_new)"
    by blast
  then show ?thesis
    unfolding os using h m0 m1 by (simp del: translate_func.simps)
qed

text \<open>
  C3, as stated, fails: in the fresh context \<open>Add\<close> at (int, float) matches no overload,
  and the lowering ends in the statement \<^verbatim>\<open>TODO;\<close>, not in the error
  \<open>NoMatchingOverload\<close> with the operator, the argument types and the span that the
  specification describes.
\<close>

theorem translate_func_miss_is_not_NoMatchingOverload:
  "translate_func Context_new (OperatorExpr () Add)
     [fst (get_int (ty Context_new)), fst (get_float (ty Context_new))]
   = Inl Todo
   \<and> translate_func Context_new (OperatorExpr () Add)
       [fst (get_int (ty Context_new)), fst (get_float (ty Context_new))]
     \<noteq> Inl (NoMatchingOverload Add
              [fst (get_int (ty Context_new)), fst (get_float (ty Context_new))] ())
   \<and> translate_func Context_new (OperatorExpr () Add)
       [fst (get_int (ty Context_new)), fst (get_float (ty Context_new))]
     \<noteq> resolve_callable_spec Context_new () Add
         [fst (get_int (ty Context_new)), fst (get_float (ty Context_new))]"
  by code_simp

text \<open>
  C3, amended. When no overload of the operator matches the argument types exactly,
  \<^verbatim>\<open>OperatorExpr::translate_func\<close> selects none and ends in \<^verbatim>\<open>TODO;\<close>; whenever it
  succeeds, the overload it returns is one of the operator's list that matches exactly,
  so no closest match is taken and no type is coerced. In the fresh context \<open>Add\<close> at
  (int, float) ends in \<^verbatim>\<open>TODO;\<close>.
\<close>

theorem translate_func_miss_is_Todo:
  "(op_index op < length (ops ctx) \<and> overloads_typed ctx
      \<and> (\<forall>e \<in> set (ops ctx ! op_index op). \<not> matches_exactly (ty ctx) arg_types e)
     \<longrightarrow> (translate_func ctx (OperatorExpr pos op) arg_types :: 'p lowered) = Inl Todo)
   \<and> (op_index op < length (ops ctx) \<and> overloads_typed ctx
      \<and> (translate_func ctx (OperatorExpr pos op) arg_types :: 'p lowered)
           = Inr ((t, x), ctx')
     \<longrightarrow> (\<exists>func. (t, func) \<in> set (ops ctx ! op_index op)
                  \<and> matches_exactly (ty ctx) arg_types (t, func)
                  \<and> x = Imm (VFunc func) \<and> ctx' = ctx))
   \<and> (translate_func Context_new (OperatorExpr pos Add)
        [fst (get_int (ty Context_new)), fst (get_float (ty Context_new))] :: 'p lowered)
       = Inl Todo"
proof (intro conjI impI)
  assume h: "op_index op < length (ops ctx) \<and> overloads_typed ctx
      \<and> (\<forall>e \<in> set (ops ctx ! op_index op). \<not> matches_exactly (ty ctx) arg_types e)"
  then have "first_match ctx op arg_types = None"
    by (simp add: first_match_None_iff)
  moreover have "(translate_func ctx (OperatorExpr pos op) arg_types :: 'p lowered) =
     (case first_match ctx op arg_types of
        Some (t, func) \<Rightarrow> Inr ((t, Imm (VFunc func)), ctx)
      | None \<Rightarrow> Inl Todo)"
    using h by (intro translate_func_first_match) auto
  ultimately show "(translate_func ctx (OperatorExpr pos op) arg_types :: 'p lowered) = Inl Todo"
    by simp
next
  assume h: "op_index op < length (ops ctx) \<and> overloads_typed ctx
      \<and> (translate_func ctx (OperatorExpr pos op) arg_types :: 'p lowered)
           = Inr ((t, x), ctx')"
  have "(translate_func ctx (OperatorExpr pos op) arg_types :: 'p lowered) =
     (case first_match ctx op arg_types of
        Some (t, func) \<Rightarrow> Inr ((t, Imm (VFunc func)), ctx)
      | None \<Rightarrow> Inl Todo)"
    using h by (intro translate_func_first_match) auto
  with h have "(case first_match ctx op arg_types of
        Some (t, func) \<Rightarrow> Inr ((t, Imm (VFunc func)), ctx)
      | None \<Rightarrow> (Inl Todo :: 'p lowered)) = Inr ((t, x), ctx')"
    by simp
  then obtain func where f: "first_match ctx op arg_types = Some (t, func)"
    and x: "x = Imm (VFunc func)" and c: "ctx' = ctx"
    by (cases "first_match ctx op arg_types") auto
  from f have "(t, func) \<in> set (ops ctx ! op_index op)
      \<and> matches_exactly (ty ctx) arg_types (t, func)"
    unfolding first_match_Some_iff by (metis nth_mem)
  then show "\<exists>func. (t, func) \<in> set (ops ctx ! op_index op)
                  \<and> matches_exactly (ty ctx) arg_types (t, func)
                  \<and> x = Imm (VFunc func) \<and> ctx' = ctx"
    using x c by blast
next
  have "(translate_func Context_new (OperatorExpr pos Add) [0, 2] :: 'p lowered) = Inl Todo"
    unfolding translate_func_first_match [OF Context_new_in_range Context_new_typed]
    by (simp add: Context_new_int_float)
  then show "(translate_func Context_new (OperatorExpr pos Add)
        [fst (get_int (ty Context_new)), fst (get_float (ty Context_new))] :: 'p lowered)
       = Inl Todo"
    by (simp add: Context_new_prims del: translate_func.simps)
qed

theorem translate_func_miss_is_Todo_witness:
  "op_index Add < length (ops Context_new) \<and> overloads_typed Context_new
   \<and> ops Context_new ! op_index Add = [(3, IAdd), (4, FAdd)]
   \<and> \<not> matches_exactly (ty Context_new) [0, 2] (3, IAdd)
   \<and> \<not> matches_exactly (ty Context_new) [0, 2] (4, FAdd)
   \<and> translate_func Context_new (OperatorExpr () Add) [0, 2] = Inl Todo
   \<and> translate_func Context_new (OperatorExpr () Equal) [0, 0]
       = Inr ((5, Imm (VFunc IEq)), Context_new)
   \<and> (5, IEq) \<in> set (ops Context_new ! op_index Equal)
   \<and> matches_exactly (ty Context_new) [0, 0] (5, IEq)"
proof -
  have h: "op_index Add < length (ops Context_new)" "op_index Equal < length (ops Context_new)"
     "overloads_typed Context_new"
    by (simp_all add: Context_new_length Context_new_typed)
  have n: "\<forall>e \<in> set (ops Context_new ! op_index Add). \<not> matches_exactly (ty Context_new) [0, 2] e"
    by code_simp
  have e: "translate_func Context_new (OperatorExpr () Equal) [0, 0]
       = Inr ((5, Imm (VFunc IEq)), Context_new)"
    by code_simp
  from translate_func_miss_is_Todo [of Add Context_new "[0, 2]" "()"] h n
  have 1: "translate_func Context_new (OperatorExpr () Add) [0, 2] = Inl Todo"
    by blast
  from translate_func_miss_is_Todo [of Equal Context_new "[0, 0]" "()" 5 "Imm (VFunc IEq)" Context_new] h e
  have 2: "\<exists>func. (5, func) \<in> set (ops Context_new ! op_index Equal)
                  \<and> matches_exactly (ty Context_new) [0, 0] (5, func)
                  \<and> Imm (VFunc IEq) = Imm (VFunc func) \<and> Context_new = Context_new"
    by blast
  then have 3: "(5, IEq) \<in> set (ops Context_new ! op_index Equal)
      \<and> matches_exactly (ty Context_new) [0, 0] (5, IEq)"
    by auto
  have os: "ops Context_new ! op_index Add = [(3, IAdd), (4, FAdd)]"
    by code_simp
  have m: "\<not> matches_exactly (ty Context_new) [0, 2] (3, IAdd)"
    "\<not> matches_exactly (ty Context_new) [0, 2] (4, FAdd)"
    by code_simp+
  show ?thesis
    using h os m e 1 3 by blast
qed

subsection \<open>Bounds\<close>

lemma emplace_back_length: "length (emplace_back op e os) = length os"
  by (simp add: emplace_back_def)

text \<open>
  C9. The inner loop of \<^verbatim>\<open>OperatorExpr::translate_func\<close> runs only on an overload whose
  parameter count is the argument count, and then reads both vectors within bounds; so
  resolving an operator never indexes out of range once \<^verbatim>\<open>ops[op]\<close> itself is in bounds.
  The fresh context has \<^verbatim>\<open>NumOps\<close> lists, every operator's index is below \<^verbatim>\<open>NumOps\<close>, and
  a registration keeps the number of lists.
\<close>

theorem translate_func_indexes_in_bounds:
  "(length args = length expected_args \<longrightarrow>
      (\<exists>m. (match_loop args expected_args (length expected_args) 0 True :: 'p error + bool) = Inr m))
   \<and> (op_index op < length (ops ctx) \<longrightarrow>
        (translate_func ctx (OperatorExpr pos op) expected_args :: 'p lowered) \<noteq> Inl OutOfRange)
   \<and> length (ops Context_new) = NumOps
   \<and> op_index op < NumOps
   \<and> length all_operators = NumOps
   \<and> all_operators ! op_index op = op
   \<and> op_index op < length (ops Context_new)
   \<and> length (emplace_back op' e (ops ctx)) = length (ops ctx)"
proof (intro conjI impI)
  assume "length args = length expected_args"
  then show "\<exists>m. (match_loop args expected_args (length expected_args) 0 True :: 'p error + bool) = Inr m"
    by (simp add: match_loop_in_range)
next
  assume "op_index op < length (ops ctx)"
  then show "(translate_func ctx (OperatorExpr pos op) expected_args :: 'p lowered) \<noteq> Inl OutOfRange"
    by (simp add: OperatorExpr_translate_func_def at_def scan_overloads_in_range)
next
  show "length (ops Context_new) = NumOps"
    by (simp add: Context_new_length NumOps_def)
  show "op_index op < NumOps"
    by (simp add: op_index_less NumOps_def)
  show "length all_operators = NumOps"
    by (simp add: all_operators_def NumOps_def)
  show "all_operators ! op_index op = op"
    by (cases op) (simp_all add: all_operators_def)
  show "op_index op < length (ops Context_new)"
    by (rule Context_new_in_range)
  show "length (emplace_back op' e (ops ctx)) = length (ops ctx)"
    by (rule emplace_back_length)
qed

theorem translate_func_indexes_in_bounds_witness:
  "length [0, 0 :: nat] = length [0, 2 :: nat]
   \<and> match_loop [0, 0] [0, 2] (length [0, 2 :: nat]) 0 True = (Inr False :: unit error + bool)
   \<and> op_index Add < length (ops Context_new)
   \<and> translate_func Context_new (OperatorExpr () Add) [0] \<noteq> Inl OutOfRange
   \<and> translate_func Context_new (OperatorExpr () Add) [0] = Inl Todo
   \<and> match_loop [0, 0] [0] 2 0 True = (Inl OutOfRange :: unit error + bool)"
proof -
  have 1: "length [0, 0 :: nat] = length [0, 2 :: nat]" by simp
  have 2: "op_index Add < length (ops Context_new)"
    by (simp add: Context_new_length)
  from translate_func_indexes_in_bounds
         [where op = Add and ctx = Context_new and pos = "()" and expected_args = "[0]"]
  have 3: "translate_func Context_new (OperatorExpr () Add) [0] \<noteq> Inl OutOfRange"
    using 2 by blast
  from translate_func_indexes_in_bounds
         [where args = "[0, 0]" and expected_args = "[0, 2]" and 'p = unit]
  have 4: "\<exists>m. match_loop [0, 0] [0, 2] (length [0, 2 :: nat]) 0 True = (Inr m :: unit error + bool)"
    using 1 by blast
  have 5: "match_loop [0, 0] [0, 2] (length [0, 2 :: nat]) 0 True = (Inr False :: unit error + bool)"
    by code_simp
  have 6: "match_loop [0, 0] [0] 2 0 True = (Inl OutOfRange :: unit error + bool)"
    by code_simp
  have 7: "translate_func Context_new (OperatorExpr () Add) [0] = Inl Todo"
    by code_simp
  show ?thesis using 1 2 3 5 6 7 by blast
qed

subsection \<open>The overloads of the fresh context\<close>

text \<open>
  C10. In the fresh context \<open>Add\<close> has exactly two overloads, (int, int) to int with
  the integer addition and then (float, float) to float with the float addition; \<open>Equal\<close>
  has exactly one, (int, int) to bool with the integer equality; every other operator has
  none, and resolving it as a callable selects nothing, whatever the argument types.
\<close>

theorem Context_new_overloads:
  "ops Context_new ! op_index Add
     = [(fst (get_func [fst (get_int (ty Context_new)), fst (get_int (ty Context_new))]
                 (fst (get_int (ty Context_new))) (ty Context_new)), IAdd),
        (fst (get_func [fst (get_float (ty Context_new)), fst (get_float (ty Context_new))]
                 (fst (get_float (ty Context_new))) (ty Context_new)), FAdd)]
   \<and> ops Context_new ! op_index Equal
     = [(fst (get_func [fst (get_int (ty Context_new)), fst (get_int (ty Context_new))]
                 (fst (get_bool (ty Context_new))) (ty Context_new)), IEq)]
   \<and> (op \<noteq> Add \<and> op \<noteq> Equal \<longrightarrow>
        ops Context_new ! op_index op = []
      \<and> (translate_func Context_new (OperatorExpr pos op) arg_types :: 'p lowered) = Inl Todo)"
proof (intro conjI impI)
  show "ops Context_new ! op_index Add
     = [(fst (get_func [fst (get_int (ty Context_new)), fst (get_int (ty Context_new))]
                 (fst (get_int (ty Context_new))) (ty Context_new)), IAdd),
        (fst (get_func [fst (get_float (ty Context_new)), fst (get_float (ty Context_new))]
                 (fst (get_float (ty Context_new))) (ty Context_new)), FAdd)]"
    by code_simp
  show "ops Context_new ! op_index Equal
     = [(fst (get_func [fst (get_int (ty Context_new)), fst (get_int (ty Context_new))]
                 (fst (get_bool (ty Context_new))) (ty Context_new)), IEq)]"
    by code_simp
next
  assume h: "op \<noteq> Add \<and> op \<noteq> Equal"
  then show e: "ops Context_new ! op_index op = []"
    by (simp add: Context_new_other)
  show "(translate_func Context_new (OperatorExpr pos op) arg_types :: 'p lowered) = Inl Todo"
    using e Context_new_in_range [of op]
    by (simp add: OperatorExpr_translate_func_def at_def)
qed

theorem Context_new_overloads_witness:
  "Mul \<noteq> Add \<and> Mul \<noteq> Equal \<and> ops Context_new ! op_index Mul = []
   \<and> translate_func Context_new (OperatorExpr () Mul) [0, 0] = Inl Todo"
proof -
  have h: "Mul \<noteq> Add \<and> Mul \<noteq> Equal" by simp
  with Context_new_overloads [of Mul "()" "[0, 0]"]
  have "ops Context_new ! op_index Mul = []
      \<and> translate_func Context_new (OperatorExpr () Mul) [0, 0] = Inl Todo"
    by blast
  with h show ?thesis by blast
qed

subsection \<open>Lowering of a call\<close>

lemma translate_args_lower_in_order:
  "translate_args ctx args args_type args_expr =
     (case lower_in_order ctx args of
        Inl e \<Rightarrow> Inl e
      | Inr (ps, ctx1) \<Rightarrow> Inr ((args_type @ map fst ps, args_expr @ map snd ps), ctx1))"
proof (induction args arbitrary: ctx args_type args_expr)
  case Nil
  then show ?case by simp
next
  case (Cons arg rest)
  show ?case
  proof (cases "translate ctx arg")
    case (Inl e)
    then show ?thesis by simp
  next
    case (Inr r)
    obtain t x ctx1 where r: "r = ((t, x), ctx1)" by (cases r) auto
    show ?thesis
      using Inr r Cons.IH [of ctx1 "args_type @ [t]" "args_expr @ [x]"]
      by (simp split: sum.splits)
  qed
qed

lemma lower_in_order_length:
  "lower_in_order ctx args = Inr (ps, ctx1) \<Longrightarrow> length ps = length args"
  by (induction args arbitrary: ctx ps) (auto split: sum.splits)

lemma lower_in_order_snoc:
  "lower_in_order ctx (args @ [arg]) =
     (case lower_in_order ctx args of
        Inl e \<Rightarrow> Inl e
      | Inr (ps, ctx1) \<Rightarrow>
         (case translate ctx1 arg of
            Inl e \<Rightarrow> Inl e
          | Inr (p, ctx2) \<Rightarrow> Inr (ps @ [p], ctx2)))"
  by (induction args arbitrary: ctx) (auto split: sum.splits)

text \<open>
  C1. \<^verbatim>\<open>Call::translate\<close> lowers the arguments left to right, each in the context the
  previous one left, and stops at the first that fails (a failing argument decides the
  outcome whatever the callee is); only then does it resolve the
  callee with \<^verbatim>\<open>translate_func\<close>, in the context the last argument left, on the types
  collected in order. The call's type is the return type of the function type resolved,
  its node a call node with the resolved callee and the argument nodes in order. The
  callee is not lowered as an expression: \<^verbatim>\<open>OperatorExpr::translate\<close> returns nothing, yet
  a call of the operator \<open>Add\<close> on two integers lowers.
\<close>

theorem Call_translate_arguments_then_callee:
  "translate ctx (Call pos func args) =
     (case lower_in_order ctx args of
        Inl e \<Rightarrow> Inl e
      | Inr (ps, ctx1) \<Rightarrow>
         (case translate_func ctx1 func (map fst ps) of
            Inl e \<Rightarrow> Inl e
          | Inr ((func_type, func_expr), ctx2) \<Rightarrow>
             (case get_ret (ty ctx2) func_type of
                Inl e \<Rightarrow> Inl e
              | Inr ret \<Rightarrow> Inr ((ret, ir_Call func_expr (map snd ps)), ctx2))))
   \<and> (\<forall>ps ctx1. lower_in_order ctx args = Inr (ps, ctx1) \<longrightarrow> length ps = length args)
   \<and> lower_in_order ctx (args @ [arg]) =
       (case lower_in_order ctx args of
          Inl e \<Rightarrow> Inl e
        | Inr (ps, ctx1) \<Rightarrow>
           (case translate ctx1 arg of
              Inl e \<Rightarrow> Inl e
            | Inr (p, ctx2) \<Rightarrow> Inr (ps @ [p], ctx2)))
   \<and> (\<forall>e. translate ctx arg = Inl e \<longrightarrow> translate ctx (Call pos func (arg # args)) = Inl e)
   \<and> translate Context_new (OperatorExpr pos Add) = Inl MissingReturn
   \<and> translate Context_new (Call pos (OperatorExpr pos Add) [Int_Expr pos v, Int_Expr pos w])
       = Inr ((fst (get_int (ty Context_new)),
               ir_Call (Imm (VFunc IAdd)) [Imm (VInt v), Imm (VInt w)]), Context_new)"
proof (intro conjI allI impI)
  show "translate ctx (Call pos func args) =
     (case lower_in_order ctx args of
        Inl e \<Rightarrow> Inl e
      | Inr (ps, ctx1) \<Rightarrow>
         (case translate_func ctx1 func (map fst ps) of
            Inl e \<Rightarrow> Inl e
          | Inr ((func_type, func_expr), ctx2) \<Rightarrow>
             (case get_ret (ty ctx2) func_type of
                Inl e \<Rightarrow> Inl e
              | Inr ret \<Rightarrow> Inr ((ret, ir_Call func_expr (map snd ps)), ctx2))))"
    by (simp add: translate_args_lower_in_order split: sum.splits prod.splits)
next
  fix ps ctx1 assume "lower_in_order ctx args = Inr (ps, ctx1)"
  then show "length ps = length args" by (rule lower_in_order_length)
next
  show "lower_in_order ctx (args @ [arg]) =
       (case lower_in_order ctx args of
          Inl e \<Rightarrow> Inl e
        | Inr (ps, ctx1) \<Rightarrow>
           (case translate ctx1 arg of
              Inl e \<Rightarrow> Inl e
            | Inr (p, ctx2) \<Rightarrow> Inr (ps @ [p], ctx2)))"
    by (rule lower_in_order_snoc)
next
  fix e assume "translate ctx arg = Inl e"
  then show "translate ctx (Call pos func (arg # args)) = Inl e" by simp
next
  show "translate Context_new (OperatorExpr pos Add) = Inl MissingReturn" by simp
next
  have c: "Context_new\<lparr>ty := ty Context_new\<rparr> = Context_new" by simp
  have l: "lower_in_order Context_new [Int_Expr pos v, Int_Expr pos w]
      = Inr ([(0, Imm (VInt v)), (0, Imm (VInt w))], Context_new)"
    by (simp add: Context_new_prims c)
  have f: "(translate_func Context_new (OperatorExpr pos Add) [0, 0] :: 'a lowered)
          = Inr ((3, Imm (VFunc IAdd)), Context_new)"
    unfolding translate_func_first_match [OF Context_new_in_range Context_new_typed]
    by (simp add: Context_new_int_int)
  have g: "(get_ret (ty Context_new) 3 :: 'a error + tyref) = Inr 0"
    by (simp add: get_ret_def Context_new_ty)
  show "translate Context_new (Call pos (OperatorExpr pos Add) [Int_Expr pos v, Int_Expr pos w])
       = Inr ((fst (get_int (ty Context_new)),
               ir_Call (Imm (VFunc IAdd)) [Imm (VInt v), Imm (VInt w)]), Context_new)"
    using f g by (simp add: translate_args_lower_in_order l Context_new_prims del: lower_in_order.simps translate_func.simps)
qed

theorem Call_translate_arguments_then_callee_witness:
  "lower_in_order \<lparr>ty = [], ops = ops Context_new\<rparr> [Float_Expr () 7, Int_Expr () 1]
     = Inr ([(0, Imm (VFloat 7)), (1, Imm (VInt 1))],
            \<lparr>ty = [type_Float, type_Int], ops = ops Context_new\<rparr>)
   \<and> length [(0 :: nat, Imm (VFloat 7)), (1, Imm (VInt 1))]
     = length [Float_Expr () 7, Int_Expr () 1]
   \<and> translate Context_new (Identifier () ''x'') = Inl MissingReturn
   \<and> translate_func Context_new (OperatorExpr () Mul) [] = Inl Todo
   \<and> translate Context_new (Call () (OperatorExpr () Mul) [Identifier () ''x''])
     = Inl MissingReturn"
proof -
  let ?c = "\<lparr>ty = [], ops = ops Context_new\<rparr>"
  have 1: "lower_in_order ?c [Float_Expr () 7, Int_Expr () 1]
     = Inr ([(0, Imm (VFloat 7)), (1, Imm (VInt 1))],
            \<lparr>ty = [type_Float, type_Int], ops = ops Context_new\<rparr>)"
    by (simp add: get_int_def get_float_def intern_def)
  from Call_translate_arguments_then_callee
         [where ctx = ?c and pos = "()" and args = "[Float_Expr () 7, Int_Expr () 1]"] 1
  have 2: "length [(0 :: nat, Imm (VFloat 7)), (1, Imm (VInt 1))]
     = length [Float_Expr () 7, Int_Expr () 1]"
    by blast
  have 3: "translate Context_new (Identifier () ''x'') = (Inl MissingReturn :: unit lowered)"
    by simp
  from Call_translate_arguments_then_callee
         [where ctx = Context_new and pos = "()" and arg = "Identifier () ''x''"
            and func = "OperatorExpr () Mul" and args = "[]"] 3
  have 4: "translate Context_new (Call () (OperatorExpr () Mul) [Identifier () ''x''])
     = Inl MissingReturn"
    by blast
  have 5: "translate_func Context_new (OperatorExpr () Mul) [] = (Inl Todo :: unit lowered)"
    by code_simp
  show ?thesis using 1 2 3 4 5 by blast
qed

subsection \<open>Interning\<close>

lemma index_of_SomeD:
  "index_of x xs = Some i \<Longrightarrow> i < length xs \<and> xs ! i = x"
  by (induction xs arbitrary: i) (auto split: if_splits option.splits)

lemma index_of_append:
  "index_of x xs = Some i \<Longrightarrow> index_of x (xs @ ys) = Some i"
  by (induction xs arbitrary: i) (auto split: if_splits option.splits)

lemma index_of_append_new:
  "index_of x xs = None \<Longrightarrow> index_of x (xs @ [x]) = Some (length xs)"
  by (induction xs) (auto split: if_splits option.splits)

lemma intern_index:
  "index_of t (snd (intern t r)) = Some (fst (intern t r))"
  by (cases "index_of t r") (simp_all add: intern_def index_of_append_new)

lemma intern_extends: "\<exists>ys. snd (intern t r) = r @ ys"
  by (cases "index_of t r") (simp_all add: intern_def)

lemma intern_keeps:
  "index_of u r = Some a \<Longrightarrow> index_of u (snd (intern t r)) = Some a"
  using intern_extends [of t r] by (auto simp: index_of_append)

lemma intern_stored:
  "fst (intern t r) < length (snd (intern t r)) \<and> snd (intern t r) ! fst (intern t r) = t"
  using index_of_SomeD [OF intern_index] .

lemma serve_intern: "serve q r = intern (structure_of q) r"
  by (cases q) (simp_all add: get_int_def get_bool_def get_float_def get_func_def)

lemma structure_of_inj: "structure_of q = structure_of q' \<Longrightarrow> q = q'"
  by (cases q; cases q') simp_all

lemma registry_after_keeps:
  "index_of u r = Some a \<Longrightarrow> index_of u (registry_after r qs) = Some a"
  by (induction qs arbitrary: r) (simp_all add: serve_intern intern_keeps)

lemma serve_all_index:
  "i < length qs \<Longrightarrow>
   index_of (structure_of (qs ! i)) (registry_after r qs) = Some (serve_all r qs ! i)"
proof (induction qs arbitrary: r i)
  case Nil
  then show ?case by simp
next
  case (Cons q qs)
  show ?case
  proof (cases i)
    case 0
    have "index_of (structure_of q) (snd (serve q r)) = Some (fst (serve q r))"
      by (simp add: serve_intern intern_index)
    then show ?thesis
      using 0 by (simp add: case_prod_beta registry_after_keeps)
  next
    case (Suc k)
    then show ?thesis
      using Cons.IH [of k "snd (serve q r)"] Cons.prems by (simp add: case_prod_beta)
  qed
qed

text \<open>
  C5. Among the references that any sequence of requests returns, from any registry,
  two are the same instance exactly when the two requests are structurally equal: the
  same primitive, or function types with the same parameter instances in order and the
  same return instance. In particular each operation, asked twice, returns the same
  instance, and the instance \<^verbatim>\<open>get_func\<close> returns has the structure asked for.
\<close>

theorem registry_interning:
  "(i < length qs \<and> j < length qs \<longrightarrow>
      (serve_all r qs ! i = serve_all r qs ! j \<longleftrightarrow> qs ! i = qs ! j))
   \<and> fst (get_int (snd (get_int r))) = fst (get_int r)
   \<and> fst (get_bool (snd (get_bool r))) = fst (get_bool r)
   \<and> fst (get_float (snd (get_float r))) = fst (get_float r)
   \<and> fst (get_func params ret (snd (get_func params ret r))) = fst (get_func params ret r)
   \<and> snd (get_func params ret r) ! fst (get_func params ret r) = type_Func params ret"
proof (intro conjI impI)
  assume h: "i < length qs \<and> j < length qs"
  let ?R = "registry_after r qs"
  have i: "index_of (structure_of (qs ! i)) ?R = Some (serve_all r qs ! i)"
    using h by (simp add: serve_all_index)
  have j: "index_of (structure_of (qs ! j)) ?R = Some (serve_all r qs ! j)"
    using h by (simp add: serve_all_index)
  show "serve_all r qs ! i = serve_all r qs ! j \<longleftrightarrow> qs ! i = qs ! j"
  proof
    assume e: "serve_all r qs ! i = serve_all r qs ! j"
    have "?R ! (serve_all r qs ! i) = structure_of (qs ! i)"
      using index_of_SomeD [OF i] by simp
    moreover have "?R ! (serve_all r qs ! j) = structure_of (qs ! j)"
      using index_of_SomeD [OF j] by simp
    ultimately have "structure_of (qs ! i) = structure_of (qs ! j)"
      using e by simp
    then show "qs ! i = qs ! j" by (rule structure_of_inj)
  next
    assume "qs ! i = qs ! j"
    then show "serve_all r qs ! i = serve_all r qs ! j"
      using i j by simp
  qed
next
  have twice: "fst (intern t (snd (intern t r))) = fst (intern t r)" for t
    using intern_index [of t r] by (simp add: intern_def)
  show "fst (get_int (snd (get_int r))) = fst (get_int r)"
    by (simp add: get_int_def twice)
  show "fst (get_bool (snd (get_bool r))) = fst (get_bool r)"
    by (simp add: get_bool_def twice)
  show "fst (get_float (snd (get_float r))) = fst (get_float r)"
    by (simp add: get_float_def twice)
  show "fst (get_func params ret (snd (get_func params ret r))) = fst (get_func params ret r)"
    by (simp add: get_func_def twice)
  show "snd (get_func params ret r) ! fst (get_func params ret r) = type_Func params ret"
    by (simp add: get_func_def intern_stored)
qed

theorem registry_interning_witness:
  "(1::nat) < length [Get_int, Get_func [0, 0] 0, Get_float, Get_func [0, 0] 0, Get_func [0] 0]
   \<and> (3::nat) < length [Get_int, Get_func [0, 0] 0, Get_float, Get_func [0, 0] 0, Get_func [0] 0]
   \<and> serve_all [] [Get_int, Get_func [0, 0] 0, Get_float, Get_func [0, 0] 0, Get_func [0] 0]
       = [0, 1, 2, 1, 3]
   \<and> serve_all [] [Get_int, Get_func [0, 0] 0, Get_float, Get_func [0, 0] 0, Get_func [0] 0] ! 1
     = serve_all [] [Get_int, Get_func [0, 0] 0, Get_float, Get_func [0, 0] 0, Get_func [0] 0] ! 3"
proof -
  let ?qs = "[Get_int, Get_func [0, 0] 0, Get_float, Get_func [0, 0] 0, Get_func [0] 0]"
  have h: "(1::nat) < length ?qs \<and> (3::nat) < length ?qs" by simp
  have q: "?qs ! 1 = ?qs ! 3" by simp
  from registry_interning [of 1 ?qs 3 "[]"] h q
  have "serve_all [] ?qs ! 1 = serve_all [] ?qs ! 3" by blast
  moreover have "serve_all [] ?qs = [0, 1, 2, 1, 3]" by code_simp
  ultimately show ?thesis using h by blast
qed

subsection \<open>Literals\<close>

text \<open>
  C7. Lowering an integer literal always succeeds, with the interned int type and an
  immediate of the literal's value; lowering a float literal always succeeds, with the
  interned float type and an immediate of its value. Neither depends on the operator
  table. In the fresh context the types are the ones the overloads were registered with,
  and the context is left as it was.
\<close>

theorem literal_lowering:
  "translate ctx (Int_Expr pos v)
     = Inr ((fst (get_int (ty ctx)), Imm (VInt v)), ctx\<lparr>ty := snd (get_int (ty ctx))\<rparr>)
   \<and> translate ctx (Float_Expr pos w)
     = Inr ((fst (get_float (ty ctx)), Imm (VFloat w)), ctx\<lparr>ty := snd (get_float (ty ctx))\<rparr>)
   \<and> map_sum id fst (translate (ctx\<lparr>ops := os\<rparr>) (Int_Expr pos v))
     = map_sum id fst (translate ctx (Int_Expr pos v))
   \<and> map_sum id fst (translate (ctx\<lparr>ops := os\<rparr>) (Float_Expr pos w))
     = map_sum id fst (translate ctx (Float_Expr pos w))
   \<and> snd (get_int (ty ctx)) ! fst (get_int (ty ctx)) = type_Int
   \<and> snd (get_float (ty ctx)) ! fst (get_float (ty ctx)) = type_Float
   \<and> translate Context_new (Int_Expr pos v)
     = Inr ((fst (get_int (ty Context_new)), Imm (VInt v)), Context_new)
   \<and> translate Context_new (Float_Expr pos w)
     = Inr ((fst (get_float (ty Context_new)), Imm (VFloat w)), Context_new)"
proof (intro conjI)
  show "snd (get_int (ty ctx)) ! fst (get_int (ty ctx)) = type_Int"
    by (simp add: get_int_def intern_stored)
  show "snd (get_float (ty ctx)) ! fst (get_float (ty ctx)) = type_Float"
    by (simp add: get_float_def intern_stored)
  have c: "Context_new\<lparr>ty := ty Context_new\<rparr> = Context_new" by simp
  show "translate Context_new (Int_Expr pos v)
     = Inr ((fst (get_int (ty Context_new)), Imm (VInt v)), Context_new)"
    by (simp add: Context_new_prims c)
  show "translate Context_new (Float_Expr pos w)
     = Inr ((fst (get_float (ty Context_new)), Imm (VFloat w)), Context_new)"
    by (simp add: Context_new_prims c)
qed (simp_all add: case_prod_beta)

subsection \<open>Indentation of the debug dump\<close>

lemma indent_spaces: "indent depth = replicate (2 * nat depth) (CHR '' '')"
proof -
  have "concat (replicate n ''  '') = replicate (2 * n) (CHR '' '')" for n :: nat
    by (induction n) simp_all
  then show ?thesis by (simp add: indent_def)
qed

lemma indent_add:
  "0 \<le> d \<Longrightarrow> 0 \<le> k \<Longrightarrow> indent (d + k) = indent k @ indent d"
  by (simp add: indent_spaces nat_add_distrib replicate_add [symmetric] add.commute)

lemma Expr_debug_print_shift:
  "0 \<le> d \<Longrightarrow> 0 \<le> k \<Longrightarrow>
   Expr_debug_print P D (d + k) e = map ((@) (indent k)) (Expr_debug_print P D d e)"
proof (induction e arbitrary: d)
  case (Call pos func args)
  have 1: "Expr_debug_print P D (d + k + 1) func
      = map ((@) (indent k)) (Expr_debug_print P D (d + 1) func)"
    using Call.IH(1) [of "d + 1"] Call.prems by (simp add: add.commute add.left_commute)
  have 2: "map (Expr_debug_print P D (d + k + 1)) args
      = map (\<lambda>a. map ((@) (indent k)) (Expr_debug_print P D (d + 1) a)) args"
  proof (rule map_cong [OF refl])
    fix a assume "a \<in> set args"
    then show "Expr_debug_print P D (d + k + 1) a
        = map ((@) (indent k)) (Expr_debug_print P D (d + 1) a)"
      using Call.IH(2) [of a "d + 1"] Call.prems by (simp add: add.commute add.left_commute)
  qed
  show ?case
    using Call.prems
    by (simp add: 1 2 indent_add map_concat comp_def)
qed (simp_all add: indent_add)

lemma Type_debug_print_shift:
  "0 \<le> d \<Longrightarrow> 0 \<le> k \<Longrightarrow>
   Type_debug_print P (d + k) t = map ((@) (indent k)) (Type_debug_print P d t)"
  by (cases t) (simp add: indent_add)

lemma Pat_debug_print_shift:
  "0 \<le> d \<Longrightarrow> 0 \<le> k \<Longrightarrow>
   Pat_debug_print P (d + k) p = map ((@) (indent k)) (Pat_debug_print P d p)"
  by (cases p) (simp add: indent_add)

lemma Stmt_debug_print_shift:
  "0 \<le> d \<Longrightarrow> 0 \<le> k \<Longrightarrow>
   Stmt_debug_print P D (d + k) s = map ((@) (indent k)) (Stmt_debug_print P D d s)"
proof (induction s arbitrary: d)
  case (ExprStmt pos expr)
  then show ?case
    using Expr_debug_print_shift [of "d + 1" k P D]
    by (cases expr) (simp_all add: indent_add add.commute add.left_commute)
next
  case (Block pos stmts)
  have m: "map (Stmt_debug_print P D (d + k + 1)) stmts
      = map (\<lambda>a. map ((@) (indent k)) (Stmt_debug_print P D (d + 1) a)) stmts"
  proof (rule map_cong [OF refl])
    fix a assume "a \<in> set stmts"
    then show "Stmt_debug_print P D (d + k + 1) a
        = map ((@) (indent k)) (Stmt_debug_print P D (d + 1) a)"
      using Block.IH [of a "d + 1"] Block.prems by (simp add: add.commute add.left_commute)
  qed
  show ?case
    using Block.prems by (simp add: m indent_add map_concat comp_def)
next
  case (If_Stmt pos cond stmt_true stmt_false)
  have c: "Expr_debug_print P D (d + k + 1) cond
      = map ((@) (indent k)) (Expr_debug_print P D (d + 1) cond)"
    using Expr_debug_print_shift [of "d + 1" k P D cond] If_Stmt.prems
    by (simp add: add.commute add.left_commute)
  have t: "Stmt_debug_print P D (d + k + 1) stmt_true
      = map ((@) (indent k)) (Stmt_debug_print P D (d + 1) stmt_true)"
    using If_Stmt.IH(1) [of "d + 1"] If_Stmt.prems by (simp add: add.commute add.left_commute)
  show ?case
  proof (cases stmt_false)
    case None
    then show ?thesis using If_Stmt.prems by (simp add: c t indent_add)
  next
    case (Some s)
    have "Stmt_debug_print P D (d + k + 1) s
      = map ((@) (indent k)) (Stmt_debug_print P D (d + 1) s)"
      using If_Stmt.IH(2) [of s "d + 1"] Some If_Stmt.prems
      by (simp add: add.commute add.left_commute)
    then show ?thesis using Some If_Stmt.prems by (simp add: c t indent_add)
  qed
next
  case (While pos cond stmt)
  have c: "Expr_debug_print P D (d + k + 1) cond
      = map ((@) (indent k)) (Expr_debug_print P D (d + 1) cond)"
    using Expr_debug_print_shift [of "d + 1" k P D cond] While.prems
    by (simp add: add.commute add.left_commute)
  have t: "Stmt_debug_print P D (d + k + 1) stmt
      = map ((@) (indent k)) (Stmt_debug_print P D (d + 1) stmt)"
    using While.IH [of "d + 1"] While.prems by (simp add: add.commute add.left_commute)
  show ?case using While.prems by (simp add: c t indent_add)
next
  case (Break pos)
  then show ?case by (simp add: indent_add)
next
  case (Continue pos)
  then show ?case by (simp add: indent_add)
next
  case (Return pos expr)
  then show ?case
    using Expr_debug_print_shift [of "d + 1" k P D]
    by (cases expr) (simp_all add: indent_add add.commute add.left_commute)
next
  case (Decl pos left t right)
  have l: "Pat_debug_print P (d + k + 1) left
      = map ((@) (indent k)) (Pat_debug_print P (d + 1) left)"
    using Pat_debug_print_shift [of "d + 1" k P left] Decl.prems
    by (simp add: add.commute add.left_commute)
  have t: "(case t of Some t' \<Rightarrow> Type_debug_print P (d + k + 1) t' | None \<Rightarrow> [])
      = map ((@) (indent k)) (case t of Some t' \<Rightarrow> Type_debug_print P (d + 1) t' | None \<Rightarrow> [])"
    using Type_debug_print_shift [of "d + 1" k P] Decl.prems
    by (cases t) (simp_all add: add.commute add.left_commute)
  have r: "(case right of Some e \<Rightarrow> Expr_debug_print P D (d + k + 1) e | None \<Rightarrow> [])
      = map ((@) (indent k)) (case right of Some e \<Rightarrow> Expr_debug_print P D (d + 1) e | None \<Rightarrow> [])"
    using Expr_debug_print_shift [of "d + 1" k P D] Decl.prems
    by (cases right) (simp_all add: add.commute add.left_commute)
  show ?case using Decl.prems by (simp add: l t r indent_add)
qed

lemma op_name_nonempty: "op_name op \<noteq> []"
  by (cases op) simp_all

text \<open>
  C8. Every operator has a fixed display name, which is what the dump of an operator
  expression prints: \<open>Add\<close> prints "add", \<open>Equal\<close> "equal to", \<open>LogicalAnd\<close>
  "logical and". The indentation of depth \<open>d\<close> is \<open>2 * d\<close> spaces. Every node prints
  its own lines (its label, and the frame lines "args(n):", "do", "end while", "then",
  "else", "end if", "end block") at its own depth, and the lines of each of its parts,
  in the order of the source, two spaces deeper than its own: this is stated for every
  kind of expression, type, pattern and statement. A \<open>While\<close> is framed by "while",
  "do" and "end while", an \<open>If\<close> by "if", "then", "else" (when there is an else branch)
  and "end if". As a consequence the dump of a node at depth \<open>d\<close> is its dump at depth 0
  with every line indented by \<open>2 * d\<close> more spaces.
\<close>

theorem debug_print_names_and_indentation:
  "op_name Add = ''add'' \<and> op_name Equal = ''equal to'' \<and> op_name LogicalAnd = ''logical and''
   \<and> op_name op \<noteq> []
   \<and> indent depth = replicate (2 * nat depth) (CHR '' '')
   \<and> Expr_debug_print P D depth (Identifier pos name)
       = [indent depth @ P pos @ '' identifier('' @ name @ '')'']
   \<and> Expr_debug_print P D depth (Int_Expr pos v)
       = [indent depth @ P pos @ '' integer('' @ dec_int32 v @ '')'']
   \<and> Expr_debug_print P D depth (Float_Expr pos w)
       = [indent depth @ P pos @ '' float('' @ D w @ '')'']
   \<and> Expr_debug_print P D depth (String_Expr pos str)
       = [indent depth @ P pos @ '' string('' @ str @ '')'']
   \<and> Expr_debug_print P D depth (OperatorExpr pos op)
       = [indent depth @ P pos @ '' operator('' @ op_name op @ '')'']
   \<and> Type_debug_print P depth (TypeName pos name)
       = [indent depth @ P pos @ '' type name('' @ name @ '')'']
   \<and> Pat_debug_print P depth (IdPat pos name)
       = [indent depth @ P pos @ '' identifier pattern('' @ name @ '')'']
   \<and> Stmt_debug_print P D depth (ExprStmt pos None)
       = [indent depth @ P pos @ '' expression statement (empty)'']
   \<and> Stmt_debug_print P D depth (Break pos) = [indent depth @ P pos @ '' break'']
   \<and> Stmt_debug_print P D depth (Continue pos) = [indent depth @ P pos @ '' continue'']
   \<and> (0 \<le> depth \<longrightarrow>
        Expr_debug_print P D depth (Call pos func args)
          = [indent depth @ P pos @ '' call'']
            @ map ((@) ''  '') (Expr_debug_print P D depth func)
            @ [indent depth @ ''args('' @ dec (length args) @ ''):'']
            @ map ((@) ''  '') (concat (map (Expr_debug_print P D depth) args))
      \<and> Stmt_debug_print P D depth (ExprStmt pos (Some e))
          = [indent depth @ P pos @ '' expression statement'']
            @ map ((@) ''  '') (Expr_debug_print P D depth e)
      \<and> Stmt_debug_print P D depth (Block pos stmts)
          = [indent depth @ P pos @ '' block'']
            @ map ((@) ''  '') (concat (map (Stmt_debug_print P D depth) stmts))
            @ [indent depth @ ''end block'']
      \<and> Stmt_debug_print P D depth (While pos cond stmt)
          = [indent depth @ P pos @ '' while'']
            @ map ((@) ''  '') (Expr_debug_print P D depth cond)
            @ [indent depth @ ''do'']
            @ map ((@) ''  '') (Stmt_debug_print P D depth stmt)
            @ [indent depth @ ''end while'']
      \<and> Stmt_debug_print P D depth (If_Stmt pos cond stmt (Some stmt_false))
          = [indent depth @ P pos @ '' if'']
            @ map ((@) ''  '') (Expr_debug_print P D depth cond)
            @ [indent depth @ ''then'']
            @ map ((@) ''  '') (Stmt_debug_print P D depth stmt)
            @ [indent depth @ ''else'']
            @ map ((@) ''  '') (Stmt_debug_print P D depth stmt_false)
            @ [indent depth @ ''end if'']
      \<and> Stmt_debug_print P D depth (If_Stmt pos cond stmt None)
          = [indent depth @ P pos @ '' if'']
            @ map ((@) ''  '') (Expr_debug_print P D depth cond)
            @ [indent depth @ ''then'']
            @ map ((@) ''  '') (Stmt_debug_print P D depth stmt)
            @ [indent depth @ ''end if'']
      \<and> Stmt_debug_print P D depth (Return pos (Some e))
          = [indent depth @ P pos @ '' return'']
            @ map ((@) ''  '') (Expr_debug_print P D depth e)
      \<and> Stmt_debug_print P D depth (Return pos None)
          = [indent depth @ P pos @ '' return'']
      \<and> Stmt_debug_print P D depth (Decl pos left annotation right)
          = [indent depth @ P pos @ '' decl'']
            @ map ((@) ''  '') (Pat_debug_print P depth left)
            @ map ((@) ''  '')
                (case annotation of Some t' \<Rightarrow> Type_debug_print P depth t' | None \<Rightarrow> [])
            @ map ((@) ''  '')
                (case right of Some e' \<Rightarrow> Expr_debug_print P D depth e' | None \<Rightarrow> [])
      \<and> Expr_debug_print P D depth e = map ((@) (indent depth)) (Expr_debug_print P D 0 e)
      \<and> Type_debug_print P depth t = map ((@) (indent depth)) (Type_debug_print P 0 t)
      \<and> Pat_debug_print P depth p = map ((@) (indent depth)) (Pat_debug_print P 0 p)
      \<and> Stmt_debug_print P D depth s = map ((@) (indent depth)) (Stmt_debug_print P D 0 s))"
proof (intro conjI impI)
  show "op_name op \<noteq> []" by (rule op_name_nonempty)
  show "indent depth = replicate (2 * nat depth) (CHR '' '')" by (rule indent_spaces)
next
  assume d: "0 \<le> depth"
  have i1: "indent 1 = ''  ''" by (simp add: indent_def)
  have e1: "Expr_debug_print P D (depth + 1) = (\<lambda>x. map ((@) ''  '') (Expr_debug_print P D depth x))"
    using Expr_debug_print_shift [of depth 1 P D] d by (simp add: i1 fun_eq_iff)
  have s1: "Stmt_debug_print P D (depth + 1) = (\<lambda>x. map ((@) ''  '') (Stmt_debug_print P D depth x))"
    using Stmt_debug_print_shift [of depth 1 P D] d by (simp add: i1 fun_eq_iff)
  have t1: "Type_debug_print P (depth + 1) = (\<lambda>x. map ((@) ''  '') (Type_debug_print P depth x))"
    using Type_debug_print_shift [of depth 1 P] d by (simp add: i1 fun_eq_iff)
  have p1: "Pat_debug_print P (depth + 1) = (\<lambda>x. map ((@) ''  '') (Pat_debug_print P depth x))"
    using Pat_debug_print_shift [of depth 1 P] d by (simp add: i1 fun_eq_iff)
  show "Expr_debug_print P D depth (Call pos func args)
          = [indent depth @ P pos @ '' call'']
            @ map ((@) ''  '') (Expr_debug_print P D depth func)
            @ [indent depth @ ''args('' @ dec (length args) @ ''):'']
            @ map ((@) ''  '') (concat (map (Expr_debug_print P D depth) args))"
    by (simp add: e1 map_concat comp_def)
  show "Stmt_debug_print P D depth (ExprStmt pos (Some e))
          = [indent depth @ P pos @ '' expression statement'']
            @ map ((@) ''  '') (Expr_debug_print P D depth e)"
    by (simp add: e1)
  show "Stmt_debug_print P D depth (Block pos stmts)
          = [indent depth @ P pos @ '' block'']
            @ map ((@) ''  '') (concat (map (Stmt_debug_print P D depth) stmts))
            @ [indent depth @ ''end block'']"
    by (simp add: s1 map_concat comp_def)
  show "Stmt_debug_print P D depth (While pos cond stmt)
          = [indent depth @ P pos @ '' while'']
            @ map ((@) ''  '') (Expr_debug_print P D depth cond)
            @ [indent depth @ ''do'']
            @ map ((@) ''  '') (Stmt_debug_print P D depth stmt)
            @ [indent depth @ ''end while'']"
    by (simp add: e1 s1)
  show "Stmt_debug_print P D depth (If_Stmt pos cond stmt (Some stmt_false))
          = [indent depth @ P pos @ '' if'']
            @ map ((@) ''  '') (Expr_debug_print P D depth cond)
            @ [indent depth @ ''then'']
            @ map ((@) ''  '') (Stmt_debug_print P D depth stmt)
            @ [indent depth @ ''else'']
            @ map ((@) ''  '') (Stmt_debug_print P D depth stmt_false)
            @ [indent depth @ ''end if'']"
    by (simp add: e1 s1)
  show "Stmt_debug_print P D depth (If_Stmt pos cond stmt None)
          = [indent depth @ P pos @ '' if'']
            @ map ((@) ''  '') (Expr_debug_print P D depth cond)
            @ [indent depth @ ''then'']
            @ map ((@) ''  '') (Stmt_debug_print P D depth stmt)
            @ [indent depth @ ''end if'']"
    by (simp add: e1 s1)
  show "Stmt_debug_print P D depth (Return pos (Some e))
          = [indent depth @ P pos @ '' return'']
            @ map ((@) ''  '') (Expr_debug_print P D depth e)"
    by (simp add: e1)
  show "Stmt_debug_print P D depth (Return pos None)
          = [indent depth @ P pos @ '' return'']"
    by simp
  show "Stmt_debug_print P D depth (Decl pos left annotation right)
          = [indent depth @ P pos @ '' decl'']
            @ map ((@) ''  '') (Pat_debug_print P depth left)
            @ map ((@) ''  '')
                (case annotation of Some t' \<Rightarrow> Type_debug_print P depth t' | None \<Rightarrow> [])
            @ map ((@) ''  '')
                (case right of Some e' \<Rightarrow> Expr_debug_print P D depth e' | None \<Rightarrow> [])"
    by (simp add: e1 t1 p1 split: option.splits)
  show "Expr_debug_print P D depth e = map ((@) (indent depth)) (Expr_debug_print P D 0 e)"
    using Expr_debug_print_shift [of 0 depth P D e] d by simp
  show "Type_debug_print P depth t = map ((@) (indent depth)) (Type_debug_print P 0 t)"
    using Type_debug_print_shift [of 0 depth P t] d by simp
  show "Pat_debug_print P depth p = map ((@) (indent depth)) (Pat_debug_print P 0 p)"
    using Pat_debug_print_shift [of 0 depth P p] d by simp
  show "Stmt_debug_print P D depth s = map ((@) (indent depth)) (Stmt_debug_print P D 0 s)"
    using Stmt_debug_print_shift [of 0 depth P D s] d by simp
qed simp_all

theorem debug_print_names_and_indentation_witness:
  "(0::int) \<le> 1
   \<and> Stmt_debug_print (\<lambda>_. ''@'') (\<lambda>_. ''1.5'') 1
       (Block ()
          [ExprStmt () (Some (Int_Expr () 5)),
           ExprStmt () None,
           Decl () (IdPat () ''x'') (Some (TypeName () ''int'')) (Some (Float_Expr () 0)),
           While () (Call () (OperatorExpr () Less) [Identifier () ''i'', Int_Expr () (- 3)])
             (If_Stmt () (Identifier () ''b'') (Break ()) (Some (Continue ()))),
           Return () (Some (String_Expr () ''s''))])
     = [''  @ block''] @
       map ((@) ''  '')
        (concat (map (Stmt_debug_print (\<lambda>_. ''@'') (\<lambda>_. ''1.5'') 1)
          [ExprStmt () (Some (Int_Expr () 5)),
           ExprStmt () None,
           Decl () (IdPat () ''x'') (Some (TypeName () ''int'')) (Some (Float_Expr () 0)),
           While () (Call () (OperatorExpr () Less) [Identifier () ''i'', Int_Expr () (- 3)])
             (If_Stmt () (Identifier () ''b'') (Break ()) (Some (Continue ()))),
           Return () (Some (String_Expr () ''s''))])) @
       [''  end block'']
   \<and> Stmt_debug_print (\<lambda>_. ''@'') (\<lambda>_. ''1.5'') 1
       (Block ()
          [ExprStmt () (Some (Int_Expr () 5)),
           ExprStmt () None,
           Decl () (IdPat () ''x'') (Some (TypeName () ''int'')) (Some (Float_Expr () 0)),
           While () (Call () (OperatorExpr () Less) [Identifier () ''i'', Int_Expr () (- 3)])
             (If_Stmt () (Identifier () ''b'') (Break ()) (Some (Continue ()))),
           Return () (Some (String_Expr () ''s''))])
     = [''  @ block'',
        ''    @ expression statement'',
        ''      @ integer(5)'',
        ''    @ expression statement (empty)'',
        ''    @ decl'',
        ''      @ identifier pattern(x)'',
        ''      @ type name(int)'',
        ''      @ float(1.5)'',
        ''    @ while'',
        ''      @ call'',
        ''        @ operator(less than)'',
        ''      args(2):'',
        ''        @ identifier(i)'',
        ''        @ integer(-3)'',
        ''    do'',
        ''      @ if'',
        ''        @ identifier(b)'',
        ''      then'',
        ''        @ break'',
        ''      else'',
        ''        @ continue'',
        ''      end if'',
        ''    end while'',
        ''    @ return'',
        ''      @ string(s)'',
        ''  end block'']"
proof -
  let ?P = "\<lambda>_ :: unit. ''@''"
  let ?D = "\<lambda>_ :: 64 word. ''1.5''"
  let ?ss = "[ExprStmt () (Some (Int_Expr () 5)),
           ExprStmt () None,
           Decl () (IdPat () ''x'') (Some (TypeName () ''int'')) (Some (Float_Expr () 0)),
           While () (Call () (OperatorExpr () Less) [Identifier () ''i'', Int_Expr () (- 3)])
             (If_Stmt () (Identifier () ''b'') (Break ()) (Some (Continue ()))),
           Return () (Some (String_Expr () ''s''))]"
  have h: "(0::int) \<le> 1" by simp
  have i: "indent 1 = ''  ''" by (simp add: indent_def)
  from debug_print_names_and_indentation
         [where depth = 1 and P = ?P and D = ?D and pos = "()" and stmts = ?ss] h
  have "Stmt_debug_print ?P ?D 1 (Block () ?ss)
     = [indent 1 @ ?P () @ '' block'']
       @ map ((@) ''  '') (concat (map (Stmt_debug_print ?P ?D 1) ?ss))
       @ [indent 1 @ ''end block'']"
    by blast
  then have 1: "Stmt_debug_print ?P ?D 1 (Block () ?ss)
     = [''  @ block'']
       @ map ((@) ''  '') (concat (map (Stmt_debug_print ?P ?D 1) ?ss))
       @ [''  end block'']"
    by (simp only: i append.simps)
  have 2: "Stmt_debug_print ?P ?D 1 (Block () ?ss)
     = [''  @ block'',
        ''    @ expression statement'',
        ''      @ integer(5)'',
        ''    @ expression statement (empty)'',
        ''    @ decl'',
        ''      @ identifier pattern(x)'',
        ''      @ type name(int)'',
        ''      @ float(1.5)'',
        ''    @ while'',
        ''      @ call'',
        ''        @ operator(less than)'',
        ''      args(2):'',
        ''        @ identifier(i)'',
        ''        @ integer(-3)'',
        ''    do'',
        ''      @ if'',
        ''        @ identifier(b)'',
        ''      then'',
        ''        @ break'',
        ''      else'',
        ''        @ continue'',
        ''      end if'',
        ''    end while'',
        ''    @ return'',
        ''      @ string(s)'',
        ''  end block'']"
    by code_simp
  show ?thesis using h 1 2 by blast
qed

subsection \<open>Statements\<close>

text \<open>
  C4. The claim is that lowering an \<open>ExprStmt\<close> without expression succeeds with a
  no-op node that continues to the given continuation. The source calls
  \<^verbatim>\<open>expr->translate(ctx)\<close> through the null pointer: the lowering fails, for every
  continuation, although the constructor's comment allows \<^verbatim>\<open>nullptr\<close> and the debug dump
  prints such a statement as "expression statement (empty)".
\<close>

theorem ExprStmt_translate_absent_expression:
  "ExprStmt_translate ctx None end_stmt n = Inl NullPointer
   \<and> Stmt_translate others ctx (ExprStmt pos None) end_stmt n = Inl NullPointer
   \<and> Stmt_debug_print P D depth (ExprStmt pos None)
       = [indent depth @ P pos @ '' expression statement (empty)'']"
  by (simp add: ExprStmt_translate_def)

lemma Context_new_Add_call:
  "translate Context_new (Call pos (OperatorExpr pos' Add) [Int_Expr p1 v, Int_Expr p2 w])
     = Inr ((0, ir_Call (Imm (VFunc IAdd)) [Imm (VInt v), Imm (VInt w)]), Context_new)"
proof -
  have c: "Context_new\<lparr>ty := ty Context_new\<rparr> = Context_new" by simp
  have a: "translate_args Context_new [Int_Expr p1 v, Int_Expr p2 w] [] []
      = Inr (([0, 0], [Imm (VInt v), Imm (VInt w)]), Context_new)"
    by (simp add: Context_new_prims c)
  have f: "(translate_func Context_new (OperatorExpr pos' Add) [0, 0] :: 'a lowered)
          = Inr ((3, Imm (VFunc IAdd)), Context_new)"
    unfolding translate_func_first_match [OF Context_new_in_range Context_new_typed]
    by (simp add: Context_new_int_int)
  have g: "(get_ret (ty Context_new) 3 :: 'a error + tyref) = Inr 0"
    by (simp add: get_ret_def Context_new_ty)
  show ?thesis
    using f g by (simp add: a del: translate_args.simps translate_func.simps)
qed

text \<open>
  C6. \<^verbatim>\<open>Stmt::run\<close> lowers the statement with no continuation (the end of the function)
  and the slot counter of a new function definition, at 0; on success it invokes the
  definition whose entry is the lowered node, on the given environment and no argument,
  which by the specification's invocation is a run from the entry on a frame of its own,
  of as many empty slots as the lowering counted; what \<^verbatim>\<open>ir::print\<close> makes of the result
  is handed back, with the context as the lowering left it, for the next call. Run on
  the statement \<open>1 + 2\<close> in the fresh context, it executes the call node of the integer
  addition on an empty frame and leaves the context as it was.
\<close>

theorem run_lowers_invokes_prints:
  "run others exec print stmt ctx env =
     (case Stmt_translate others ctx stmt None 0 of
        Inl e \<Rightarrow> Inl e
      | Inr ((node, n), ctx1) \<Rightarrow> Inr (print (exec env (replicate n None) node), ctx1))
   \<and> invoke exec \<lparr>entry = node, num_locals = n\<rparr> env [] = exec env (replicate n None) node
   \<and> run others exec print
        (ExprStmt pos (Some (Call pos (OperatorExpr pos Add) [Int_Expr pos v, Int_Expr pos w])))
        Context_new env
     = Inr (print (exec env []
              (Some (ir_ExprStmt (ir_Call (Imm (VFunc IAdd)) [Imm (VInt v), Imm (VInt w)]) None))),
            Context_new)"
proof (intro conjI)
  show "run others exec print stmt ctx env =
     (case Stmt_translate others ctx stmt None 0 of
        Inl e \<Rightarrow> Inl e
      | Inr ((node, n), ctx1) \<Rightarrow> Inr (print (exec env (replicate n None) node), ctx1))"
    by (simp add: run_def invoke_def new_frame_def split: sum.splits prod.splits)
  show "invoke exec \<lparr>entry = node, num_locals = n\<rparr> env [] = exec env (replicate n None) node"
    by (simp add: invoke_def new_frame_def)
  show "run others exec print
        (ExprStmt pos (Some (Call pos (OperatorExpr pos Add) [Int_Expr pos v, Int_Expr pos w])))
        Context_new env
     = Inr (print (exec env []
              (Some (ir_ExprStmt (ir_Call (Imm (VFunc IAdd)) [Imm (VInt v), Imm (VInt w)]) None))),
            Context_new)"
    by (simp add: run_def invoke_def new_frame_def ExprStmt_translate_def Context_new_Add_call
        del: translate.simps)
qed

end
